theory Spec2Isabelle
  imports Main "HOL-Library.Option_ord" "HOL-Library.Char_ord" "HOL-Library.List_Lexorder"
begin

section \<open>Data model\<close>

text \<open>
  The incremental processor of \<^verbatim>\<open>src/incremental_processing.py\<close> works on three
  stores: the bronze directory (read only), the silver directory (one parquet file per
  table, overwritten wholesale) and the JSON state file. What it reads from polars data
  frames is the list of column names, the rows, and the cells of the columns
  \<^verbatim>\<open>raceId\<close> and \<^verbatim>\<open>year\<close>. A cell is a nullable integer (\<open>None\<close> is the polars
  null, which Python sees as \<^verbatim>\<open>None\<close>), as the two key columns hold them; the cells
  of the other columns are never looked at and integers stand for their values. Every column carries its dtype, which
  polars compares when it joins and when it concatenates.
\<close>

type_synonym cell = "int option"

type_synonym year = "int option"

datatype dtype = Int64 | Float64 | Utf8 | Boolean

record dataframe =
  columns :: "string list"
  dtypes :: "dtype list"
  rows :: "cell list list"

text \<open>A parquet file on disk is readable, or damaged by a write that did not complete.\<close>

datatype pfile = Parquet dataframe | Corrupt

text \<open>The exceptions that the modelled library calls and Python operators raise.\<close>

datatype exn =
  FileNotFoundError
  | ComputeError
  | ColumnNotFoundError
  | DuplicateError
  | ShapeError
  | SchemaError
  | TypeError
  | JSONDecodeError
  | WriteError
  | TransformError

text \<open>
  One entry of \<^verbatim>\<open>self.state\<close>: \<^verbatim>\<open>{'processed_years': [...], 'last_update': ...}\<close>.
  The entry created by \<^verbatim>\<open>mark_years_processed\<close> has no \<^verbatim>\<open>last_update\<close> until the
  years are stored.
\<close>

record table_state =
  processed_years :: "year list"
  last_update :: "string option"

type_synonym pstate = "string \<rightharpoonup> table_state"

text \<open>
  The state file: absent, holding the complete JSON text of a state, or holding a proper
  prefix of such a text. \<^verbatim>\<open>json.dump\<close> of a dict ends with the brace that closes the
  dict, so no proper prefix of its output is a JSON document and \<^verbatim>\<open>json.load\<close>
  raises on it.
\<close>

datatype sfile = NoFile | Complete pstate | Torn

text \<open>The records of the logger at level WARNING and above (info lines are left out).\<close>

datatype log_record =
  BronzeFileNotFound string
  | CannotDetermineYear string
  | SchemaMismatch
  | ExistingOnly "string set"
  | NewOnly "string set"
  | ErrorProcessing string exn

record sys =
  bronze :: "string \<rightharpoonup> pfile"
  silver :: "string \<rightharpoonup> pfile"
  state_file :: sfile
  state :: pstate
  logged :: "log_record list"

text \<open>
  What a run cannot decide by itself: the table-specific transforms of
  \<^verbatim>\<open>SilverTransformation\<close> (polars expression pipelines, taken as given), which
  writes to the silver directory fail and what they leave behind, the clock, and whether
  the installed polars lets a null cell match a null in \<^verbatim>\<open>is_in\<close>.
\<close>

datatype residue = Untouched | Damaged

record env =
  transform :: "string \<Rightarrow> dataframe \<Rightarrow> exn + dataframe"
  write_fault :: "string \<Rightarrow> residue option"
  now :: "string \<Rightarrow> string"
  nulls_equal :: bool

text \<open>The dictionary that \<^verbatim>\<open>process_table_incremental\<close> returns, by its status.\<close>

datatype error = bronze_file_not_found | no_year_column | Raised exn

datatype outcome =
  Skipped string
  | Failed string error
  | UpToDate string
  | Success string "year list" nat nat

fun table_name_of :: "outcome \<Rightarrow> string" where
  "table_name_of (Skipped t) = t"
| "table_name_of (Failed t e) = t"
| "table_name_of (UpToDate t) = t"
| "table_name_of (Success t ys n m) = t"

section \<open>Configuration (\<^verbatim>\<open>src/config.py\<close>)\<close>

definition INITIAL_LOAD_YEAR :: int where
  "INITIAL_LOAD_YEAR = 2010"

definition TABLES_WITH_YEAR :: "string list" where
  "TABLES_WITH_YEAR =
    [''races'', ''results'', ''qualifying'', ''sprint_results'', ''lap_times'',
     ''pit_stops'', ''driver_standings'', ''constructor_standings'',
     ''constructor_results'']"

definition has_year_column :: "string \<Rightarrow> bool" where
  "has_year_column table_name \<longleftrightarrow> table_name \<in> set TABLES_WITH_YEAR"

section \<open>Python and polars primitives\<close>

text \<open>
  \<^verbatim>\<open>sorted\<close> on a list of years. Comparing \<^verbatim>\<open>None\<close> with anything raises
  \<^verbatim>\<open>TypeError\<close>, and sorting a list of two or more elements compares every element
  at least once; a list of at most one element is returned without any comparison.
\<close>

definition py_sorted :: "year list \<Rightarrow> exn + year list" where
  "py_sorted xs =
    (if 2 \<le> length xs \<and> None \<in> set xs then Inl TypeError else Inr (sort xs))"

text \<open>\<^verbatim>\<open>y <= config.INITIAL_LOAD_YEAR\<close>, which raises on \<^verbatim>\<open>None\<close>.\<close>

definition le_cutoff :: "year \<Rightarrow> exn + bool" where
  "le_cutoff y = (case y of None \<Rightarrow> Inl TypeError | Some v \<Rightarrow> Inr (v \<le> INITIAL_LOAD_YEAR))"

text \<open>The comprehension \<^verbatim>\<open>[y for y in available_years if y <= config.INITIAL_LOAD_YEAR]\<close>.\<close>

fun up_to_cutoff :: "year list \<Rightarrow> exn + year list" where
  "up_to_cutoff [] = Inr []"
| "up_to_cutoff (y # ys) =
    (case le_cutoff y of
       Inl e \<Rightarrow> Inl e
     | Inr keep \<Rightarrow>
        (case up_to_cutoff ys of
           Inl e \<Rightarrow> Inl e
         | Inr r \<Rightarrow> Inr (if keep then y # r else r)))"

text \<open>The cell of a row under a column name.\<close>

definition cell_at :: "string list \<Rightarrow> cell list \<Rightarrow> string \<Rightarrow> cell" where
  "cell_at cols row c = (case map_of (zip cols row) c of None \<Rightarrow> None | Some v \<Rightarrow> v)"

text \<open>The dtype of a column, by its name.\<close>

definition dtype_at :: "string list \<Rightarrow> dtype list \<Rightarrow> string \<Rightarrow> dtype" where
  "dtype_at cols dts c = (case map_of (zip cols dts) c of None \<Rightarrow> Int64 | Some d \<Rightarrow> d)"

definition column :: "dataframe \<Rightarrow> string \<Rightarrow> cell list" where
  "column df c = map (\<lambda>row. cell_at (columns df) row c) (rows df)"

definition read_parquet :: "(string \<rightharpoonup> pfile) \<Rightarrow> string \<Rightarrow> exn + dataframe" where
  "read_parquet dir name =
    (case dir name of
       None \<Rightarrow> Inl FileNotFoundError
     | Some Corrupt \<Rightarrow> Inl ComputeError
     | Some (Parquet df) \<Rightarrow> Inr df)"

text \<open>
  \<^verbatim>\<open>df.write_parquet(file)\<close>: the file is replaced by the data frame, or the write
  raises and leaves the file as it was or damaged.
\<close>

definition write_parquet ::
  "env \<Rightarrow> (string \<rightharpoonup> pfile) \<Rightarrow> string \<Rightarrow> dataframe \<Rightarrow> exn option \<times> (string \<rightharpoonup> pfile)" where
  "write_parquet env dir name df =
    (case write_fault env name of
       None \<Rightarrow> (None, dir(name \<mapsto> Parquet df))
     | Some Untouched \<Rightarrow> (Some WriteError, dir)
     | Some Damaged \<Rightarrow> (Some WriteError, dir(name \<mapsto> Corrupt)))"

text \<open>
  \<^verbatim>\<open>df.select(cols)\<close> for a list of column names; selecting no column gives the
  empty frame.
\<close>

definition select :: "dataframe \<Rightarrow> string list \<Rightarrow> exn + dataframe" where
  "select df cols =
    (if \<not> set cols \<subseteq> set (columns df) then Inl ColumnNotFoundError
     else if \<not> distinct cols then Inl DuplicateError
     else Inr \<lparr>columns = cols,
               dtypes = map (dtype_at (columns df) (dtypes df)) cols,
               rows = (if cols = [] then []
                       else map (\<lambda>row. map (cell_at (columns df) row) cols) (rows df))\<rparr>)"

text \<open>
  \<^verbatim>\<open>df.join(races.select(['raceId', 'year']), on='raceId', how='left')\<close>: every row
  of \<open>df\<close> is kept, once for each race with its \<^verbatim>\<open>raceId\<close>, or once with a null
  year when no race has it (a null key matches nothing). The year of the races table is
  named \<^verbatim>\<open>year_right\<close> when \<open>df\<close> has a \<^verbatim>\<open>year\<close> column of its own. The join
  raises when the two \<^verbatim>\<open>raceId\<close> columns differ in dtype.
\<close>

definition matching_years :: "dataframe \<Rightarrow> cell \<Rightarrow> year list" where
  "matching_years r k =
    map (\<lambda>rr. cell_at (columns r) rr ''year'')
      [rr \<leftarrow> rows r. k \<noteq> None \<and> cell_at (columns r) rr ''raceId'' = k]"

definition join_left_raceId :: "dataframe \<Rightarrow> dataframe \<Rightarrow> exn + dataframe" where
  "join_left_raceId df races =
    (case select races [''raceId'', ''year''] of
       Inl e \<Rightarrow> Inl e
     | Inr r \<Rightarrow>
        if ''raceId'' \<notin> set (columns df) then Inl ColumnNotFoundError
        else if dtype_at (columns df) (dtypes df) ''raceId'' \<noteq>
                dtype_at (columns r) (dtypes r) ''raceId'' then Inl SchemaError
        else
          let year_col = (if ''year'' \<in> set (columns df) then ''year_right'' else ''year'') in
          if year_col \<in> set (columns df) then Inl DuplicateError
          else Inr \<lparr>columns = columns df @ [year_col],
                    dtypes = dtypes df @ [dtype_at (columns r) (dtypes r) ''year''],
                    rows = concat (map (\<lambda>row.
                      let ms = matching_years r (cell_at (columns df) row ''raceId'')
                      in if ms = [] then [row @ [None]] else map (\<lambda>y. row @ [y]) ms)
                      (rows df))\<rparr>)"

text \<open>
  \<^verbatim>\<open>pl.col('year').is_in(years)\<close> as a filter predicate: a row whose predicate is
  null is dropped.
\<close>

definition is_in :: "bool \<Rightarrow> cell \<Rightarrow> year list \<Rightarrow> bool" where
  "is_in null_eq v ys =
    (case v of None \<Rightarrow> null_eq \<and> None \<in> set ys | Some x \<Rightarrow> Some x \<in> set ys)"

definition filter_years :: "env \<Rightarrow> dataframe \<Rightarrow> year list \<Rightarrow> dataframe" where
  "filter_years env df ys =
    df\<lparr>rows := [row \<leftarrow> rows df. is_in (nulls_equal env) (cell_at (columns df) row ''year'') ys]\<rparr>"

text \<open>
  \<^verbatim>\<open>pl.concat([a, b])\<close>, vertical: the column lists must agree, and so must the dtypes
  of the columns; nothing is cast.
\<close>

definition pl_concat :: "dataframe \<Rightarrow> dataframe \<Rightarrow> exn + dataframe" where
  "pl_concat a b =
    (if columns a \<noteq> columns b then Inl ShapeError
     else if dtypes a \<noteq> dtypes b then Inl SchemaError
     else Inr \<lparr>columns = columns a, dtypes = dtypes a, rows = rows a @ rows b\<rparr>)"

text \<open>
  \<^verbatim>\<open>hasattr(transformer, f'transform_{table_name}')\<close>: the names after
  \<^verbatim>\<open>transform_\<close> of the methods of \<^verbatim>\<open>SilverTransformation\<close>. A table without such
  a method is passed on unchanged.
\<close>

definition has_transform :: "string \<Rightarrow> bool" where
  "has_transform table_name \<longleftrightarrow>
    table_name \<in> set [''circuits'', ''constructor_results'', ''standings'', ''results'',
      ''pit_stops'', ''races'', ''qualifying'', ''lap_times'', ''table'', ''all'']"

definition apply_transform :: "env \<Rightarrow> string \<Rightarrow> dataframe \<Rightarrow> exn + dataframe" where
  "apply_transform env table_name df_to_process =
    (if has_transform table_name then transform env table_name df_to_process
     else Inr df_to_process)"

section \<open>The state store and the planner\<close>

definition load_state :: "sfile \<Rightarrow> exn + pstate" where
  "load_state f =
    (case f of
       NoFile \<Rightarrow> Inr Map.empty
     | Complete st \<Rightarrow> Inr st
     | Torn \<Rightarrow> Inl JSONDecodeError)"

definition get_processed_years :: "pstate \<Rightarrow> string \<Rightarrow> year set" where
  "get_processed_years st table_name =
    (case st table_name of None \<Rightarrow> {} | Some e \<Rightarrow> set (processed_years e))"

definition get_years_to_process :: "pstate \<Rightarrow> string \<Rightarrow> year list \<Rightarrow> bool \<Rightarrow> exn + year list" where
  "get_years_to_process st table_name available_years is_initial_load =
    (let processed = get_processed_years st table_name in
     if is_initial_load \<and> processed = {} then
       (case up_to_cutoff available_years of
          Inl e \<Rightarrow> Inl e
        | Inr years_to_process \<Rightarrow> py_sorted years_to_process)
     else py_sorted [y \<leftarrow> available_years. y \<notin> processed])"

text \<open>
  \<^verbatim>\<open>_save_state\<close> opens the state file for writing, which truncates it, and dumps the
  whole state into it. \<open>save_state_points\<close> lists what the file holds at the successive
  points of that persist: the previous content before the \<^verbatim>\<open>open\<close>, a proper prefix
  of the new text (empty right after the \<^verbatim>\<open>open\<close>) while the dump runs, the complete new
  text once it has returned. A persist that completes leaves the last of them.
\<close>

definition save_state_points :: "pstate \<Rightarrow> sfile \<Rightarrow> sfile list" where
  "save_state_points st old = [old, Torn, Complete st]"

definition save_state :: "sys \<Rightarrow> sys" where
  "save_state s = s\<lparr>state_file := last (save_state_points (state s) (state_file s))\<rparr>"

text \<open>
  \<^verbatim>\<open>mark_years_processed\<close>. The entry of the table is created before the years are
  sorted, so it stays when \<^verbatim>\<open>sorted\<close> raises.
\<close>

definition mark_years_processed :: "env \<Rightarrow> string \<Rightarrow> year list \<Rightarrow> sys \<Rightarrow> exn option \<times> sys" where
  "mark_years_processed env table_name years s =
    (let st1 = (case state s table_name of
                  None \<Rightarrow> (state s)(table_name \<mapsto> \<lparr>processed_years = [], last_update = None\<rparr>)
                | Some _ \<Rightarrow> state s);
         entry = (case st1 table_name of
                    None \<Rightarrow> \<lparr>processed_years = [], last_update = None\<rparr>
                  | Some e \<Rightarrow> e)
     in case py_sorted (remdups (processed_years entry @ years)) of
          Inl e \<Rightarrow> (Some e, s\<lparr>state := st1\<rparr>)
        | Inr sorted_years \<Rightarrow>
            (None, save_state (s\<lparr>state := st1(table_name \<mapsto>
               entry\<lparr>processed_years := sorted_years,
                     last_update := Some (now env table_name)\<rparr>)\<rparr>)))"

section \<open>Processing one table\<close>

text \<open>
  Lines 121 to 175 of \<^verbatim>\<open>process_table_incremental\<close> only read: they end in a return
  (with the warnings logged on the way), in an exception, or with the data frame that
  carries the year of every row and the years to process.
\<close>

datatype plan = Return outcome "log_record list" | Raise exn | Proceed dataframe "year list"

definition with_year :: "dataframe \<Rightarrow> dataframe \<Rightarrow> (exn + dataframe) option" where
  "with_year df_bronze races_bronze =
    (if ''raceId'' \<in> set (columns df_bronze) then Some (join_left_raceId df_bronze races_bronze)
     else if ''year'' \<in> set (columns df_bronze) then Some (Inr df_bronze)
     else None)"

definition available_years_of :: "dataframe \<Rightarrow> exn + year list" where
  "available_years_of df_with_year = py_sorted (remdups (column df_with_year ''year''))"

definition plan_table :: "(string \<rightharpoonup> pfile) \<Rightarrow> pstate \<Rightarrow> string \<Rightarrow> bool \<Rightarrow> plan" where
  "plan_table bronze_dir st table_name is_initial_load =
    (if \<not> has_year_column table_name then Return (Skipped table_name) []
     else if bronze_dir table_name = None then
       Return (Failed table_name bronze_file_not_found) [BronzeFileNotFound table_name]
     else
      (case read_parquet bronze_dir table_name of
         Inl e \<Rightarrow> Raise e
       | Inr df_bronze \<Rightarrow>
      (case read_parquet bronze_dir ''races'' of
         Inl e \<Rightarrow> Raise e
       | Inr races_bronze \<Rightarrow>
      (case with_year df_bronze races_bronze of
         None \<Rightarrow> Return (Failed table_name no_year_column) [CannotDetermineYear table_name]
       | Some (Inl e) \<Rightarrow> Raise e
       | Some (Inr df_with_year) \<Rightarrow>
      (case available_years_of df_with_year of
         Inl e \<Rightarrow> Raise e
       | Inr available_years \<Rightarrow>
      (case get_years_to_process st table_name available_years is_initial_load of
         Inl e \<Rightarrow> Raise e
       | Inr years_to_process \<Rightarrow>
           if years_to_process = [] then Return (UpToDate table_name) []
           else Proceed df_with_year years_to_process))))))"

text \<open>
  Lines 191 to 220: the data frame to write and the transformed frame whose length is
  reported. With a silver file and no initial load the existing rows come first; when the
  column sets differ, both frames are cut down to the sorted common columns and the
  difference is logged.
\<close>

definition common_cols_list :: "dataframe \<Rightarrow> dataframe \<Rightarrow> string list" where
  "common_cols_list df_existing df_transformed =
    sort (remdups [c \<leftarrow> columns df_existing. c \<in> set (columns df_transformed)])"

definition build_final ::
  "string \<Rightarrow> bool \<Rightarrow> dataframe \<Rightarrow> sys \<Rightarrow> (exn + dataframe \<times> dataframe) \<times> sys" where
  "build_final table_name is_initial_load df_transformed s =
    (if silver s table_name \<noteq> None \<and> \<not> is_initial_load then
      (case read_parquet (silver s) table_name of
         Inl e \<Rightarrow> (Inl e, s)
       | Inr df_existing \<Rightarrow>
           let existing_cols = set (columns df_existing);
               new_cols = set (columns df_transformed)
           in if existing_cols \<noteq> new_cols then
                let s1 = s\<lparr>logged := logged s @
                           [SchemaMismatch, ExistingOnly (existing_cols - new_cols),
                            NewOnly (new_cols - existing_cols)]\<rparr>;
                    cs = common_cols_list df_existing df_transformed
                in (case select df_existing cs of
                      Inl e \<Rightarrow> (Inl e, s1)
                    | Inr df_existing' \<Rightarrow>
                   (case select df_transformed cs of
                      Inl e \<Rightarrow> (Inl e, s1)
                    | Inr df_transformed' \<Rightarrow>
                   (case pl_concat df_existing' df_transformed' of
                      Inl e \<Rightarrow> (Inl e, s1)
                    | Inr df_final \<Rightarrow> (Inr (df_final, df_transformed'), s1))))
              else
               (case pl_concat df_existing df_transformed of
                  Inl e \<Rightarrow> (Inl e, s)
                | Inr df_final \<Rightarrow> (Inr (df_final, df_transformed), s)))
     else (Inr (df_transformed, df_transformed), s))"

text \<open>Lines 177 to 238: filter, transform, merge, write, commit.\<close>

definition execute_plan ::
  "env \<Rightarrow> string \<Rightarrow> bool \<Rightarrow> dataframe \<Rightarrow> year list \<Rightarrow> sys \<Rightarrow> (exn + outcome) \<times> sys" where
  "execute_plan env table_name is_initial_load df_with_year years_to_process s =
    (case apply_transform env table_name (filter_years env df_with_year years_to_process) of
       Inl e \<Rightarrow> (Inl e, s)
     | Inr df_transformed \<Rightarrow>
    (case build_final table_name is_initial_load df_transformed s of
       (Inl e, s1) \<Rightarrow> (Inl e, s1)
     | (Inr (df_final, df_transformed'), s1) \<Rightarrow>
    (case write_parquet env (silver s1) table_name df_final of
       (Some e, silver') \<Rightarrow> (Inl e, s1\<lparr>silver := silver'\<rparr>)
     | (None, silver') \<Rightarrow>
    (case mark_years_processed env table_name years_to_process (s1\<lparr>silver := silver'\<rparr>) of
       (Some e, s2) \<Rightarrow> (Inl e, s2)
     | (None, s2) \<Rightarrow>
         (Inr (Success table_name years_to_process
                 (length (rows df_transformed')) (length (rows df_final))), s2)))))"

text \<open>
  The body of the \<^verbatim>\<open>try\<close> statement, and the whole method: the \<^verbatim>\<open>except\<close> clause
  turns every exception into a failed outcome and logs it.
\<close>

definition process_table_try :: "env \<Rightarrow> string \<Rightarrow> bool \<Rightarrow> sys \<Rightarrow> (exn + outcome) \<times> sys" where
  "process_table_try env table_name is_initial_load s =
    (case plan_table (bronze s) (state s) table_name is_initial_load of
       Return out warnings \<Rightarrow> (Inr out, s\<lparr>logged := logged s @ warnings\<rparr>)
     | Raise e \<Rightarrow> (Inl e, s)
     | Proceed df_with_year years_to_process \<Rightarrow>
         execute_plan env table_name is_initial_load df_with_year years_to_process s)"

definition process_table_incremental :: "env \<Rightarrow> string \<Rightarrow> bool \<Rightarrow> sys \<Rightarrow> outcome \<times> sys" where
  "process_table_incremental env table_name is_initial_load s =
    (case process_table_try env table_name is_initial_load s of
       (Inr out, s') \<Rightarrow> (out, s')
     | (Inl e, s') \<Rightarrow>
         (Failed table_name (Raised e),
          s'\<lparr>logged := logged s' @ [ErrorProcessing table_name e]\<rparr>))"

section \<open>The run\<close>

text \<open>The loop of \<^verbatim>\<open>process_all_incremental\<close> over a list of tables.\<close>

fun process_tables :: "env \<Rightarrow> bool \<Rightarrow> string list \<Rightarrow> sys \<Rightarrow> outcome list \<times> sys" where
  "process_tables env is_initial_load [] s = ([], s)"
| "process_tables env is_initial_load (table_name # tables) s =
    (case process_table_incremental env table_name is_initial_load s of
       (stats, s1) \<Rightarrow>
         (case process_tables env is_initial_load tables s1 of
            (stats_list, s2) \<Rightarrow> (stats # stats_list, s2)))"

definition process_all_incremental :: "env \<Rightarrow> bool \<Rightarrow> sys \<Rightarrow> outcome list \<times> sys" where
  "process_all_incremental env is_initial_load s =
    process_tables env is_initial_load TABLES_WITH_YEAR s"

text \<open>
  The constructor loads the state; a state file that cannot be parsed ends the process
  with the exception. The command line and the scheduled task both construct the
  processor and then call \<^verbatim>\<open>process_all_incremental\<close>.
\<close>

definition init_processor :: "sys \<Rightarrow> exn + sys" where
  "init_processor s =
    (case load_state (state_file s) of Inl e \<Rightarrow> Inl e | Inr st \<Rightarrow> Inr (s\<lparr>state := st\<rparr>))"

section \<open>Predicates of the statements\<close>


text \<open>
  The state file can be loaded, and the state it holds has the processed years of the
  state in memory.
\<close>

definition in_sync :: "sys \<Rightarrow> bool" where
  "in_sync s \<longleftrightarrow>
    (\<exists>st. load_state (state_file s) = Inr st \<and>
       (\<forall>t. get_processed_years st t = get_processed_years (state s) t))"

text \<open>The outcomes after which the merged data of the table holds every available year.\<close>

fun is_current :: "outcome \<Rightarrow> bool" where
  "is_current (Success t ys n m) = True"
| "is_current (UpToDate t) = True"
| "is_current (Skipped t) = False"
| "is_current (Failed t e) = False"

section \<open>Example data\<close>

text \<open>
  A races table with the seasons 2009 and 2011, and standings of one race of each
  (the same rows for drivers and for constructors). \<^verbatim>\<open>driver_standings\<close> and \<^verbatim>\<open>sprint_results\<close> are fact tables for which
  \<^verbatim>\<open>SilverTransformation\<close> has no method, so the code itself passes their rows on
  unchanged; the transforms of the environment return their input.
\<close>

definition example_env :: env where
  "example_env =
    \<lparr>transform = (\<lambda>t df. Inr df), write_fault = (\<lambda>t. None),
     now = (\<lambda>t. ''2024-03-01T12:00:00''), nulls_equal = False\<rparr>"

definition example_races :: dataframe where
  "example_races =
    \<lparr>columns = [''raceId'', ''year''], dtypes = [Int64, Int64],
     rows = [[Some 1, Some 2009], [Some 2, Some 2011]]\<rparr>"

definition example_standings :: dataframe where
  "example_standings =
    \<lparr>columns = [''raceId'', ''points''], dtypes = [Int64, Int64],
     rows = [[Some 1, Some 10], [Some 2, Some 8]]\<rparr>"

definition example_state :: pstate where
  "example_state =
    [''races'' \<mapsto> \<lparr>processed_years = [Some 2009, Some 2011],
                     last_update = Some ''2024-01-01T00:00:00''\<rparr>]"

definition example_sys :: sys where
  "example_sys =
    \<lparr>bronze = [''races'' \<mapsto> Parquet example_races,
               ''driver_standings'' \<mapsto> Parquet example_standings,
               ''constructor_standings'' \<mapsto> Parquet example_standings],
     silver = Map.empty, state_file = Complete example_state, state = example_state,
     logged = []\<rparr>"

text \<open>The same environment, but every write of the driver standings fails half way.\<close>

definition example_faulty_env :: env where
  "example_faulty_env =
    example_env\<lparr>write_fault := (\<lambda>t. if t = ''driver_standings'' then Some Damaged else None)\<rparr>"

text \<open>The standings with the year that the join adds to each row.\<close>

definition example_standings_with_year :: dataframe where
  "example_standings_with_year =
    \<lparr>columns = [''raceId'', ''points'', ''year''], dtypes = [Int64, Int64, Int64],
     rows = [[Some 1, Some 10, Some 2009], [Some 2, Some 8, Some 2011]]\<rparr>"

text \<open>
  A later state of the same system: the driver standings of 2009 are merged and marked,
  the standings of 2011 are new.
\<close>

definition example_merged_2009 :: dataframe where
  "example_merged_2009 =
    \<lparr>columns = [''raceId'', ''points'', ''year''], dtypes = [Int64, Int64, Int64],
     rows = [[Some 1, Some 10, Some 2009]]\<rparr>"

definition example_state_2009 :: pstate where
  "example_state_2009 =
    example_state(''driver_standings'' \<mapsto>
      \<lparr>processed_years = [Some 2009], last_update = Some ''2024-02-01T00:00:00''\<rparr>)"

definition example_sys_2009 :: sys where
  "example_sys_2009 =
    example_sys\<lparr>silver := [''driver_standings'' \<mapsto> Parquet example_merged_2009],
                state_file := Complete example_state_2009, state := example_state_2009\<rparr>"

text \<open>Sprint results whose only row names a race that the races table does not have.\<close>

definition example_orphan :: dataframe where
  "example_orphan =
    \<lparr>columns = [''raceId'', ''points''], dtypes = [Int64, Int64], rows = [[Some 7, Some 5]]\<rparr>"

definition example_sys_orphan :: sys where
  "example_sys_orphan =
    example_sys\<lparr>bronze := (bronze example_sys)(''sprint_results'' \<mapsto> Parquet example_orphan)\<rparr>"

text \<open>A merged file and a transformed frame whose columns differ.\<close>

definition example_existing_abd :: dataframe where
  "example_existing_abd =
    \<lparr>columns = [''A'', ''B'', ''D''], dtypes = [Int64, Int64, Int64],
     rows = [[Some 1, Some 2, Some 4]]\<rparr>"

definition example_incoming_cba :: dataframe where
  "example_incoming_cba =
    \<lparr>columns = [''C'', ''B'', ''A''], dtypes = [Int64, Int64, Int64],
     rows = [[Some 30, Some 20, Some 10]]\<rparr>"

text \<open>The same transformed frame, but with the column B read as text.\<close>

definition example_incoming_cba_text :: dataframe where
  "example_incoming_cba_text = example_incoming_cba\<lparr>dtypes := [Int64, Utf8, Int64]\<rparr>"

text \<open>
  The system of \<open>example_sys_2009\<close> with a silver file that has one more column and
  holds the points as text.
\<close>

definition example_merged_text :: dataframe where
  "example_merged_text =
    \<lparr>columns = [''raceId'', ''points'', ''position'', ''year''],
     dtypes = [Int64, Utf8, Int64, Int64],
     rows = [[Some 1, Some 10, Some 1, Some 2009]]\<rparr>"

definition example_sys_drift :: sys where
  "example_sys_drift =
    example_sys_2009\<lparr>silver := [''driver_standings'' \<mapsto> Parquet example_merged_text]\<rparr>"

text \<open>Qualifying results that have neither a \<^verbatim>\<open>raceId\<close> nor a \<^verbatim>\<open>year\<close> column.\<close>

definition example_no_key :: dataframe where
  "example_no_key = \<lparr>columns = [''position''], dtypes = [Int64], rows = [[Some 1]]\<rparr>"

definition example_sys_no_key :: sys where
  "example_sys_no_key =
    example_sys\<lparr>bronze := (bronze example_sys)(''qualifying'' \<mapsto> Parquet example_no_key)\<rparr>"

text \<open>
  A table with a \<^verbatim>\<open>raceId\<close> and a \<^verbatim>\<open>year\<close> column of its own: its row of race 1
  carries the year 2050, while the races table has race 1 in 2009.
\<close>

definition example_own_year :: dataframe where
  "example_own_year =
    \<lparr>columns = [''raceId'', ''year''], dtypes = [Int64, Int64], rows = [[Some 1, Some 2050]]\<rparr>"

definition example_sys_own_year :: sys where
  "example_sys_own_year =
    example_sys\<lparr>bronze := (bronze example_sys)(''sprint_results'' \<mapsto> Parquet example_own_year)\<rparr>"

section \<open>Auxiliary facts\<close>

lemma up_to_cutoff_no_null:
  "None \<notin> set ys \<Longrightarrow> up_to_cutoff ys = Inr [y \<leftarrow> ys. y \<le> Some INITIAL_LOAD_YEAR]"
proof (induction ys)
  case Nil
  then show ?case by simp
next
  case (Cons a ys)
  then obtain v where "a = Some v" by (cases a) auto
  with Cons show ?case by (simp add: le_cutoff_def)
qed

lemma py_sorted_Inr: "py_sorted xs = Inr ys \<Longrightarrow> ys = sort xs"
  by (auto simp: py_sorted_def split: if_splits)

lemma save_state_fields [simp]:
  "bronze (save_state s) = bronze s" "silver (save_state s) = silver s"
  "state (save_state s) = state s" "logged (save_state s) = logged s"
  "state_file (save_state s) = Complete (state s)"
  by (simp_all add: save_state_def save_state_points_def)

lemma mark_frame:
  assumes "mark_years_processed env t ys s = (r, s')"
  shows "bronze s' = bronze s" "silver s' = silver s" "logged s' = logged s"
    "t' \<noteq> t \<Longrightarrow> state s' t' = state s t'"
  using assms
  by (auto simp: mark_years_processed_def Let_def split: sum.splits option.splits)

lemma mark_ok:
  assumes "mark_years_processed env t ys s = (None, s')"
  shows "state_file s' = Complete (state s')"
    and "get_processed_years (state s') t = get_processed_years (state s) t \<union> set ys"
  using assms
  by (auto simp: mark_years_processed_def Let_def get_processed_years_def
      dest!: py_sorted_Inr split: sum.splits option.splits)

lemma mark_raise:
  assumes "mark_years_processed env t ys s = (Some e, s')"
  shows "state_file s' = state_file s"
    and "get_processed_years (state s') t' = get_processed_years (state s) t'"
  using assms
  by (auto simp: mark_years_processed_def Let_def get_processed_years_def
      split: sum.splits option.splits if_splits)

lemma build_final_frame:
  assumes "build_final t b df s = (r, s')"
  shows "bronze s' = bronze s" "silver s' = silver s" "state s' = state s"
    "state_file s' = state_file s"
  using assms by (auto simp: build_final_def Let_def split: sum.splits if_splits)

lemma write_parquet_frame:
  "write_parquet env dir t df = (r, dir') \<Longrightarrow> t' \<noteq> t \<Longrightarrow> dir' t' = dir t'"
  by (auto simp: write_parquet_def split: option.splits residue.splits)

lemma write_parquet_cases:
  "write_parquet env dir t df = (None, dir(t \<mapsto> Parquet df)) \<and> write_fault env t = None \<or>
   (\<exists>r. write_fault env t = Some r \<and>
     write_parquet env dir t df =
       (Some WriteError, case r of Untouched \<Rightarrow> dir | Damaged \<Rightarrow> dir(t \<mapsto> Corrupt)))"
  by (simp add: write_parquet_def split: option.splits residue.splits)

lemma execute_plan_cases:
  obtains
    (transform_raises) e where
      "apply_transform env t (filter_years env dfy ys) = Inl e"
      "execute_plan env t b dfy ys s = (Inl e, s)"
  | (merge_raises) dft e s1 where
      "apply_transform env t (filter_years env dfy ys) = Inr dft"
      "build_final t b dft s = (Inl e, s1)"
      "execute_plan env t b dfy ys s = (Inl e, s1)"
  | (write_raises) dft dff dft' s1 sv where
      "apply_transform env t (filter_years env dfy ys) = Inr dft"
      "build_final t b dft s = (Inr (dff, dft'), s1)"
      "write_parquet env (silver s1) t dff = (Some WriteError, sv)"
      "write_fault env t \<noteq> None"
      "execute_plan env t b dfy ys s = (Inl WriteError, s1\<lparr>silver := sv\<rparr>)"
  | (mark_raises) dft dff dft' s1 e s2 where
      "apply_transform env t (filter_years env dfy ys) = Inr dft"
      "build_final t b dft s = (Inr (dff, dft'), s1)"
      "write_fault env t = None"
      "mark_years_processed env t ys (s1\<lparr>silver := (silver s1)(t \<mapsto> Parquet dff)\<rparr>) = (Some e, s2)"
      "execute_plan env t b dfy ys s = (Inl e, s2)"
  | (success) dft dff dft' s1 s2 where
      "apply_transform env t (filter_years env dfy ys) = Inr dft"
      "build_final t b dft s = (Inr (dff, dft'), s1)"
      "write_fault env t = None"
      "mark_years_processed env t ys (s1\<lparr>silver := (silver s1)(t \<mapsto> Parquet dff)\<rparr>) = (None, s2)"
      "execute_plan env t b dfy ys s = (Inr (Success t ys (length (rows dft')) (length (rows dff))), s2)"
proof (cases "apply_transform env t (filter_years env dfy ys)")
  case (Inl e)
  then show ?thesis using transform_raises by (simp add: execute_plan_def)
next
  case dft: (Inr dft)
  obtain r2 s1 where r2: "build_final t b dft s = (r2, s1)" by (cases "build_final t b dft s")
  show ?thesis
  proof (cases r2)
    case (Inl e)
    with dft r2 show ?thesis using merge_raises by (simp add: execute_plan_def)
  next
    case (Inr p)
    obtain dff dft' where p: "p = (dff, dft')" by (cases p)
    note bf = r2[unfolded Inr p]
    from write_parquet_cases[of env "silver s1" t dff] show ?thesis
    proof (elim disjE conjE exE)
      assume w: "write_parquet env (silver s1) t dff = (None, (silver s1)(t \<mapsto> Parquet dff))"
        and wf: "write_fault env t = None"
      obtain m s2 where m: "mark_years_processed env t ys (s1\<lparr>silver := (silver s1)(t \<mapsto> Parquet dff)\<rparr>) = (m, s2)"
        by (cases "mark_years_processed env t ys (s1\<lparr>silver := (silver s1)(t \<mapsto> Parquet dff)\<rparr>)")
      show ?thesis
      proof (cases m)
        case None
        with dft bf w wf m show ?thesis using success by (simp add: execute_plan_def)
      next
        case (Some e)
        with dft bf w wf m show ?thesis using mark_raises by (simp add: execute_plan_def)
      qed
    next
      fix r assume wf: "write_fault env t = Some r"
        and w: "write_parquet env (silver s1) t dff =
          (Some WriteError, case r of Untouched \<Rightarrow> silver s1 | Damaged \<Rightarrow> (silver s1)(t \<mapsto> Corrupt))"
      with dft bf show ?thesis using write_raises by (simp add: execute_plan_def)
    qed
  qed
qed

lemma execute_plan_frame:
  "bronze (snd (execute_plan env t b dfy ys s)) = bronze s"
  "t' \<noteq> t \<Longrightarrow> silver (snd (execute_plan env t b dfy ys s)) t' = silver s t'"
  "t' \<noteq> t \<Longrightarrow> state (snd (execute_plan env t b dfy ys s)) t' = state s t'"
proof -
  have "bronze (snd (execute_plan env t b dfy ys s)) = bronze s \<and>
        (t' \<noteq> t \<longrightarrow> silver (snd (execute_plan env t b dfy ys s)) t' = silver s t') \<and>
        (t' \<noteq> t \<longrightarrow> state (snd (execute_plan env t b dfy ys s)) t' = state s t')"
  proof (cases rule: execute_plan_cases[where env=env and t=t and dfy=dfy and ys=ys and b=b and s=s])
    case (transform_raises e)
    then show ?thesis by simp
  next
    case (merge_raises dft e s1)
    then show ?thesis using build_final_frame[OF merge_raises(2)] by simp
  next
    case (write_raises dft dff dft' s1 sv)
    then show ?thesis
      using build_final_frame[OF write_raises(2)] write_parquet_frame[OF write_raises(3)]
      by simp
  next
    case (mark_raises dft dff dft' s1 e s2)
    then show ?thesis
      using build_final_frame[OF mark_raises(2)] mark_frame[OF mark_raises(4)]
      by simp
  next
    case (success dft dff dft' s1 s2)
    then show ?thesis
      using build_final_frame[OF success(2)] mark_frame[OF success(4)]
      by simp
  qed
  then show "bronze (snd (execute_plan env t b dfy ys s)) = bronze s"
    "t' \<noteq> t \<Longrightarrow> silver (snd (execute_plan env t b dfy ys s)) t' = silver s t'"
    "t' \<noteq> t \<Longrightarrow> state (snd (execute_plan env t b dfy ys s)) t' = state s t'"
    by simp_all
qed

lemma execute_plan_file:
  "state_file (snd (execute_plan env t b dfy ys s)) = state_file s \<or>
   state_file (snd (execute_plan env t b dfy ys s)) =
     Complete (state (snd (execute_plan env t b dfy ys s)))"
proof (cases rule: execute_plan_cases[where env=env and t=t and dfy=dfy and ys=ys and b=b and s=s])
  case (transform_raises e)
  then show ?thesis by simp
next
  case (merge_raises dft e s1)
  then show ?thesis using build_final_frame[OF merge_raises(2)] by simp
next
  case (write_raises dft dff dft' s1 sv)
  then show ?thesis using build_final_frame[OF write_raises(2)] by simp
next
  case (mark_raises dft dff dft' s1 e s2)
  then show ?thesis
    using build_final_frame[OF mark_raises(2)] mark_raise(1)[OF mark_raises(4)] by simp
next
  case (success dft dff dft' s1 s2)
  then show ?thesis using mark_ok(1)[OF success(4)] by simp
qed

lemma process_table_try_frame:
  "bronze (snd (process_table_try env t b s)) = bronze s"
  "t' \<noteq> t \<Longrightarrow> silver (snd (process_table_try env t b s)) t' = silver s t'"
  "t' \<noteq> t \<Longrightarrow> state (snd (process_table_try env t b s)) t' = state s t'"
  by (simp_all add: process_table_try_def execute_plan_frame split: plan.splits)

lemma process_table_try_file:
  "state_file (snd (process_table_try env t b s)) = state_file s \<or>
   state_file (snd (process_table_try env t b s)) =
     Complete (state (snd (process_table_try env t b s)))"
  using execute_plan_file by (simp add: process_table_try_def split: plan.splits)

lemma process_table_incremental_fields:
  "bronze (snd (process_table_incremental env t b s)) = bronze (snd (process_table_try env t b s))"
  "silver (snd (process_table_incremental env t b s)) = silver (snd (process_table_try env t b s))"
  "state (snd (process_table_incremental env t b s)) = state (snd (process_table_try env t b s))"
  "state_file (snd (process_table_incremental env t b s)) =
     state_file (snd (process_table_try env t b s))"
  by (simp_all add: process_table_incremental_def split: prod.splits sum.splits)

lemma process_table_incremental_frame:
  "bronze (snd (process_table_incremental env t b s)) = bronze s"
  "t' \<noteq> t \<Longrightarrow> silver (snd (process_table_incremental env t b s)) t' = silver s t'"
  "t' \<noteq> t \<Longrightarrow> state (snd (process_table_incremental env t b s)) t' = state s t'"
  by (simp_all add: process_table_incremental_fields process_table_try_frame)

lemma process_table_incremental_file:
  "state_file (snd (process_table_incremental env t b s)) = state_file s \<or>
   state_file (snd (process_table_incremental env t b s)) =
     Complete (state (snd (process_table_incremental env t b s)))"
  using process_table_try_file[where env=env and t=t and b=b and s=s]
  by (simp add: process_table_incremental_fields)



lemma get_processed_years_local:
  "st t = st' t \<Longrightarrow> get_processed_years st t = get_processed_years st' t"
  by (simp add: get_processed_years_def)

lemma get_years_to_process_local:
  "st t = st' t \<Longrightarrow> get_years_to_process st t = get_years_to_process st' t"
  by (intro ext) (simp add: get_years_to_process_def get_processed_years_def)

lemma plan_table_local:
  assumes "st t = st' t"
  shows "plan_table br st t b = plan_table br st' t b"
proof -
  have eq: "get_years_to_process st t = get_years_to_process st' t"
    using assms by (rule get_years_to_process_local)
  show ?thesis unfolding plan_table_def eq by (rule refl)
qed

lemma build_final_local:
  "silver s t = silver r t \<Longrightarrow> fst (build_final t b df s) = fst (build_final t b df r)"
  by (simp add: build_final_def read_parquet_def Let_def split: sum.splits option.splits pfile.splits)

lemma write_parquet_local:
  "fst (write_parquet env d t df) = fst (write_parquet env d' t df)"
  "d t = d' t \<Longrightarrow> snd (write_parquet env d t df) t = snd (write_parquet env d' t df) t"
  by (simp_all add: write_parquet_def split: option.splits residue.splits)

lemma mark_local:
  assumes "state s t = state r t"
  shows "fst (mark_years_processed env t ys s) = fst (mark_years_processed env t ys r)"
    and "state (snd (mark_years_processed env t ys s)) t =
         state (snd (mark_years_processed env t ys r)) t"
proof -
  have "fst (mark_years_processed env t ys s) = fst (mark_years_processed env t ys r) \<and>
        state (snd (mark_years_processed env t ys s)) t =
          state (snd (mark_years_processed env t ys r)) t"
  proof (cases "state r t")
    case None
    with assms show ?thesis
      by (cases "py_sorted (remdups ys)") (simp_all add: mark_years_processed_def)
  next
    case (Some e)
    with assms show ?thesis
      by (cases "py_sorted (remdups (processed_years e @ ys))")
        (simp_all add: mark_years_processed_def)
  qed
  then show "fst (mark_years_processed env t ys s) = fst (mark_years_processed env t ys r)"
    and "state (snd (mark_years_processed env t ys s)) t =
         state (snd (mark_years_processed env t ys r)) t"
    by simp_all
qed

lemma execute_plan_local:
  assumes sv: "silver s t = silver r t" and st: "state s t = state r t"
  shows "fst (execute_plan env t b dfy ys s) = fst (execute_plan env t b dfy ys r) \<and>
         silver (snd (execute_plan env t b dfy ys s)) t =
           silver (snd (execute_plan env t b dfy ys r)) t \<and>
         state (snd (execute_plan env t b dfy ys s)) t =
           state (snd (execute_plan env t b dfy ys r)) t"
proof (cases "apply_transform env t (filter_years env dfy ys)")
  case (Inl e)
  then show ?thesis using sv st by (simp add: execute_plan_def)
next
  case dft: (Inr dft)
  obtain x s1 where bs: "build_final t b dft s = (x, s1)" by (cases "build_final t b dft s")
  obtain x' r1 where br: "build_final t b dft r = (x', r1)" by (cases "build_final t b dft r")
  have x: "x' = x" using build_final_local[OF sv, where b=b and df=dft] bs br by simp
  note fs = build_final_frame[OF bs] and fr = build_final_frame[OF br]
  show ?thesis
  proof (cases x)
    case (Inl e)
    with dft bs br x fs fr sv st show ?thesis by (simp add: execute_plan_def)
  next
    case (Inr p)
    obtain dff dft' where p: "p = (dff, dft')" by (cases p)
    obtain w d1 where ws: "write_parquet env (silver s1) t dff = (w, d1)"
      by (cases "write_parquet env (silver s1) t dff")
    obtain w' d2 where wr: "write_parquet env (silver r1) t dff = (w', d2)"
      by (cases "write_parquet env (silver r1) t dff")
    have "silver s1 t = silver r1 t" using fs fr sv by simp
    then have w: "w' = w" and d: "d1 t = d2 t"
      using write_parquet_local[where env=env and d="silver s1" and t=t and df=dff and d'="silver r1"] ws wr
      by simp_all
    show ?thesis
    proof (cases w)
      case (Some e)
      with dft bs br x Inr p ws wr w d fs fr sv st show ?thesis by (simp add: execute_plan_def)
    next
      case None
      let ?s = "s1\<lparr>silver := d1\<rparr>" and ?r = "r1\<lparr>silver := d2\<rparr>"
      obtain m s2 where ms: "mark_years_processed env t ys ?s = (m, s2)"
        by (cases "mark_years_processed env t ys ?s")
      obtain m' r2 where mr: "mark_years_processed env t ys ?r = (m', r2)"
        by (cases "mark_years_processed env t ys ?r")
      have "state ?s t = state ?r t" using fs fr st by simp
      from mark_local[OF this, where env=env and ys=ys] ms mr have m: "m' = m" and s2: "state s2 t = state r2 t"
        by simp_all
      have "silver s2 t = silver r2 t" using mark_frame(2)[OF ms] mark_frame(2)[OF mr] d by simp
      with dft bs br x Inr p ws wr w None ms mr m s2 show ?thesis
        by (cases m) (simp_all add: execute_plan_def)
    qed
  qed
qed

lemma process_table_incremental_fst:
  "fst (process_table_incremental env t b s) =
    (case fst (process_table_try env t b s) of Inr out \<Rightarrow> out | Inl e \<Rightarrow> Failed t (Raised e))"
  by (cases "process_table_try env t b s"; cases "fst (process_table_try env t b s)")
    (simp_all add: process_table_incremental_def)

lemma process_table_try_local:
  assumes "bronze s = bronze r" "silver s t = silver r t" "state s t = state r t"
  shows "fst (process_table_try env t b s) = fst (process_table_try env t b r) \<and>
        silver (snd (process_table_try env t b s)) t = silver (snd (process_table_try env t b r)) t \<and>
        state (snd (process_table_try env t b s)) t = state (snd (process_table_try env t b r)) t"
proof -
  have p: "plan_table (bronze r) (state r) t b = plan_table (bronze s) (state s) t b"
    using assms plan_table_local[of "state r" t "state s"] by simp
  show ?thesis
  proof (cases "plan_table (bronze s) (state s) t b")
    case (Return out w)
    with p assms show ?thesis by (simp add: process_table_try_def)
  next
    case (Raise e)
    with p assms show ?thesis by (simp add: process_table_try_def)
  next
    case (Proceed dfy ys)
    with p show ?thesis
      using execute_plan_local[OF assms(2,3), where env=env and b=b and dfy=dfy and ys=ys]
      by (simp add: process_table_try_def)
  qed
qed

lemma process_table_incremental_local:
  assumes "bronze s = bronze r" "silver s t = silver r t" "state s t = state r t"
  shows "fst (process_table_incremental env t b s) = fst (process_table_incremental env t b r)"
    and "silver (snd (process_table_incremental env t b s)) t =
         silver (snd (process_table_incremental env t b r)) t"
    and "state (snd (process_table_incremental env t b s)) t =
         state (snd (process_table_incremental env t b r)) t"
  using process_table_try_local[OF assms, where env=env and b=b]
  by (simp_all add: process_table_incremental_fields process_table_incremental_fst)

lemma process_tables_isolated:
  assumes "distinct ts"
    and "bronze s = bronze s0"
    and "\<forall>t \<in> set ts. silver s t = silver s0 t \<and> state s t = state s0 t"
  shows "fst (process_tables env b ts s) =
         map (\<lambda>t. fst (process_table_incremental env t b s0)) ts"
  using assms
proof (induction ts arbitrary: s)
  case Nil
  then show ?case by simp
next
  case (Cons t ts)
  obtain out s1 where pt: "process_table_incremental env t b s = (out, s1)"
    by (cases "process_table_incremental env t b s")
  have hd: "out = fst (process_table_incremental env t b s0)"
    using process_table_incremental_local(1)[where s=s and r=s0 and t=t and env=env and b=b]
      Cons.prems pt by simp
  have s1: "s1 = snd (process_table_incremental env t b s)" using pt by simp
  have fr1: "bronze s1 = bronze s0"
    using Cons.prems(2) by (simp add: s1 process_table_incremental_frame)
  have fr2: "\<forall>t' \<in> set ts. silver s1 t' = silver s0 t' \<and> state s1 t' = state s0 t'"
  proof
    fix t' assume t': "t' \<in> set ts"
    with Cons.prems(1) have "t' \<noteq> t" by auto
    then show "silver s1 t' = silver s0 t' \<and> state s1 t' = state s0 t'"
      using Cons.prems(3) t' by (simp add: s1 process_table_incremental_frame)
  qed
  have "fst (process_tables env b ts s1) =
        map (\<lambda>t. fst (process_table_incremental env t b s0)) ts"
    using Cons.IH[OF _ fr1 fr2] Cons.prems(1) by simp
  with pt hd show ?case by (auto split: prod.splits)
qed

lemmas example_defs = example_env_def example_faulty_env_def example_races_def
  example_standings_def example_state_def example_sys_def example_standings_with_year_def
  example_merged_2009_def example_state_2009_def example_sys_2009_def example_orphan_def
  example_sys_orphan_def example_existing_abd_def example_incoming_cba_def example_no_key_def
  example_sys_no_key_def example_incoming_cba_text_def example_merged_text_def
  example_sys_drift_def example_own_year_def example_sys_own_year_def

lemmas run_defs = process_table_incremental_def process_table_try_def plan_table_def
  has_year_column_def TABLES_WITH_YEAR_def read_parquet_def with_year_def join_left_raceId_def
  select_def cell_at_def dtype_at_def matching_years_def available_years_of_def column_def py_sorted_def
  get_years_to_process_def get_processed_years_def execute_plan_def apply_transform_def
  has_transform_def filter_years_def is_in_def build_final_def write_parquet_def
  mark_years_processed_def save_state_def save_state_points_def Let_def

lemma distinct_TABLES_WITH_YEAR: "distinct TABLES_WITH_YEAR"
  by (simp add: TABLES_WITH_YEAR_def)

lemma process_all_isolated:
  "fst (process_all_incremental env b s) =
   map (\<lambda>t. fst (process_table_incremental env t b s)) TABLES_WITH_YEAR"
  unfolding process_all_incremental_def
  by (rule process_tables_isolated[OF distinct_TABLES_WITH_YEAR]) simp_all

lemma example_run:
  "fst (process_all_incremental example_env False example_sys) =
    [UpToDate ''races'', Failed ''results'' bronze_file_not_found,
     Failed ''qualifying'' bronze_file_not_found,
     Failed ''sprint_results'' bronze_file_not_found,
     Failed ''lap_times'' bronze_file_not_found,
     Failed ''pit_stops'' bronze_file_not_found,
     Success ''driver_standings'' [Some 2009, Some 2011] 2 2,
     Success ''constructor_standings'' [Some 2009, Some 2011] 2 2,
     Failed ''constructor_results'' bronze_file_not_found]"
  unfolding process_all_isolated
  by (simp add: TABLES_WITH_YEAR_def) (simp add: run_defs example_defs)

lemma plan_table_name:
  "plan_table br st t b = Return out w \<Longrightarrow> table_name_of out = t"
  by (auto simp: plan_table_def split: if_splits sum.splits option.splits)

lemma process_table_try_name:
  assumes "fst (process_table_try env t b s) = Inr out"
  shows "table_name_of out = t"
proof (cases "plan_table (bronze s) (state s) t b")
  case (Return out' w)
  with assms plan_table_name[OF Return] show ?thesis by (simp add: process_table_try_def)
next
  case (Raise e)
  with assms show ?thesis by (simp add: process_table_try_def)
next
  case (Proceed dfy ys)
  then have e: "fst (execute_plan env t b dfy ys s) = Inr out"
    using assms by (simp add: process_table_try_def)
  show ?thesis
    by (cases rule: execute_plan_cases[where env=env and t=t and dfy=dfy and ys=ys and b=b and s=s])
      (use e in auto)
qed

lemma process_table_incremental_name:
  "table_name_of (fst (process_table_incremental env t b s)) = t"
  by (cases "fst (process_table_try env t b s)")
    (simp_all add: process_table_incremental_fst process_table_try_name)

lemma process_tables_frame_all:
  "bronze (snd (process_tables env b ts s)) = bronze s \<and>
   (t \<notin> set ts \<longrightarrow> silver (snd (process_tables env b ts s)) t = silver s t \<and>
                    state (snd (process_tables env b ts s)) t = state s t)"
proof (induction ts arbitrary: s)
  case Nil
  show ?case by simp
next
  case (Cons t0 ts)
  obtain out s1 where pt: "process_table_incremental env t0 b s = (out, s1)"
    by (cases "process_table_incremental env t0 b s")
  then have s1: "s1 = snd (process_table_incremental env t0 b s)" by simp
  obtain outs s2 where ps: "process_tables env b ts s1 = (outs, s2)"
    by (cases "process_tables env b ts s1")
  have r: "snd (process_tables env b (t0 # ts) s) = snd (process_tables env b ts s1)"
    using pt ps by simp
  show ?case unfolding r using Cons.IH[of s1]
    by (simp add: s1 process_table_incremental_frame)
qed

lemma process_tables_frame:
  "bronze (snd (process_tables env b ts s)) = bronze s"
  "t \<notin> set ts \<Longrightarrow> silver (snd (process_tables env b ts s)) t = silver s t"
  "t \<notin> set ts \<Longrightarrow> state (snd (process_tables env b ts s)) t = state s t"
  using process_tables_frame_all[of env b ts s t] by simp_all

lemma process_tables_effect:
  assumes "distinct ts" and "t \<in> set ts"
    and "bronze s = bronze s0"
    and "\<forall>t \<in> set ts. silver s t = silver s0 t \<and> state s t = state s0 t"
  shows "silver (snd (process_tables env b ts s)) t =
           silver (snd (process_table_incremental env t b s0)) t \<and>
         state (snd (process_tables env b ts s)) t =
           state (snd (process_table_incremental env t b s0)) t"
  using assms
proof (induction ts arbitrary: s)
  case Nil
  then show ?case by simp
next
  case (Cons t0 ts)
  obtain out s1 where pt: "process_table_incremental env t0 b s = (out, s1)"
    by (cases "process_table_incremental env t0 b s")
  then have s1: "s1 = snd (process_table_incremental env t0 b s)" by simp
  obtain outs s2 where ps: "process_tables env b ts s1 = (outs, s2)"
    by (cases "process_tables env b ts s1")
  have r: "snd (process_tables env b (t0 # ts) s) = snd (process_tables env b ts s1)"
    using pt ps by simp
  show ?case
  proof (cases "t = t0")
    case True
    then have "t \<notin> set ts" using Cons.prems(1) by simp
    then have "silver (snd (process_tables env b ts s1)) t = silver s1 t"
      "state (snd (process_tables env b ts s1)) t = state s1 t"
      by (simp_all add: process_tables_frame)
    moreover have "silver s1 t = silver (snd (process_table_incremental env t b s0)) t"
      "state s1 t = state (snd (process_table_incremental env t b s0)) t"
      using process_table_incremental_local(2,3)[where s=s and r=s0 and t=t and env=env and b=b]
        Cons.prems True s1 by simp_all
    ultimately show ?thesis unfolding r by simp
  next
    case False
    then have t: "t \<in> set ts" using Cons.prems(2) by simp
    have fr1: "bronze s1 = bronze s0"
      using Cons.prems(3) by (simp add: s1 process_table_incremental_frame)
    have fr2: "\<forall>t' \<in> set ts. silver s1 t' = silver s0 t' \<and> state s1 t' = state s0 t'"
    proof
      fix t' assume t': "t' \<in> set ts"
      with Cons.prems(1) have "t' \<noteq> t0" by auto
      then show "silver s1 t' = silver s0 t' \<and> state s1 t' = state s0 t'"
        using Cons.prems(4) t' by (simp add: s1 process_table_incremental_frame)
    qed
    show ?thesis unfolding r using Cons.IH[OF _ t fr1 fr2] Cons.prems(1) by simp
  qed
qed

lemma process_all_effect:
  assumes "t \<in> set TABLES_WITH_YEAR"
  shows "silver (snd (process_all_incremental env b s)) t =
           silver (snd (process_table_incremental env t b s)) t \<and>
         state (snd (process_all_incremental env b s)) t =
           state (snd (process_table_incremental env t b s)) t"
  unfolding process_all_incremental_def
  by (rule process_tables_effect[OF distinct_TABLES_WITH_YEAR assms]) simp_all

lemma common_cols_list_eq:
  "common_cols_list a b = sorted_list_of_set (set (columns a) \<inter> set (columns b))"
proof -
  have "set (columns a) \<inter> set (columns b) = set [c \<leftarrow> columns a. c \<in> set (columns b)]"
    by auto
  then show ?thesis
    by (simp only: common_cols_list_def sorted_list_of_set_sort_remdups)
qed

lemma common_cols_list_props:
  "set (common_cols_list a b) = set (columns a) \<inter> set (columns b)"
  "distinct (common_cols_list a b)" "sorted (common_cols_list a b)"
  by (auto simp: common_cols_list_def)

lemma plan_table_Proceed:
  assumes "plan_table br st t b = Proceed dfy ys"
  shows "\<exists>avail. available_years_of dfy = Inr avail \<and>
           get_years_to_process st t avail b = Inr ys \<and> ys \<noteq> []"
  using assms
  by (auto simp: plan_table_def split: if_splits sum.splits option.splits)

lemma plan_table_Return:
  "plan_table br st t b = Return out w \<Longrightarrow> out \<noteq> Success t' ys n m"
  by (auto simp: plan_table_def split: if_splits sum.splits option.splits)

lemma process_table_incremental_Success:
  assumes "process_table_incremental env t b s = (Success t' ys n m, s')"
  shows "\<exists>dfy. plan_table (bronze s) (state s) t b = Proceed dfy ys \<and>
           execute_plan env t b dfy ys s = (Inr (Success t' ys n m), s')"
proof (cases "plan_table (bronze s) (state s) t b")
  case (Return out w)
  with assms plan_table_Return[OF Return] show ?thesis
    by (auto simp: process_table_incremental_def process_table_try_def)
next
  case (Raise e)
  with assms show ?thesis by (simp add: process_table_incremental_def process_table_try_def)
next
  case (Proceed dfy ys')
  then have e: "process_table_try env t b s = execute_plan env t b dfy ys' s"
    by (simp add: process_table_try_def)
  have "execute_plan env t b dfy ys' s = (Inr (Success t' ys n m), s')"
    using assms unfolding process_table_incremental_def e
    by (cases "execute_plan env t b dfy ys' s"; cases "fst (execute_plan env t b dfy ys' s)") auto
  moreover from this have "ys' = ys"
    by (cases rule: execute_plan_cases[where env=env and t=t and dfy=dfy and ys=ys' and b=b and s=s])
      auto
  ultimately show ?thesis using Proceed by simp
qed

lemma execute_plan_Success:
  assumes "execute_plan env t b dfy ys s = (Inr (Success t' ys' n m), s')"
  shows "\<exists>dft dff dft' s1.
    apply_transform env t (filter_years env dfy ys) = Inr dft \<and>
    build_final t b dft s = (Inr (dff, dft'), s1) \<and>
    write_fault env t = None \<and>
    mark_years_processed env t ys (s1\<lparr>silver := (silver s1)(t \<mapsto> Parquet dff)\<rparr>) = (None, s') \<and>
    t' = t \<and> ys' = ys \<and> n = length (rows dft') \<and> m = length (rows dff)"
  by (cases rule: execute_plan_cases[where env=env and t=t and dfy=dfy and ys=ys and b=b and s=s])
    (use assms in auto)






lemma get_years_to_process_processed:
  "get_processed_years st t = get_processed_years st' t \<Longrightarrow>
   get_years_to_process st t = get_years_to_process st' t"
  by (intro ext) (simp add: get_years_to_process_def)

lemma plan_table_processed:
  assumes "get_processed_years st t = get_processed_years st' t"
  shows "plan_table br st t b = plan_table br st' t b"
proof -
  have eq: "get_years_to_process st t = get_years_to_process st' t"
    using assms by (rule get_years_to_process_processed)
  show ?thesis unfolding plan_table_def eq by (rule refl)
qed

lemma plan_table_replan:
  assumes "plan_table br st t b = Proceed dfy ys"
    and "available_years_of dfy = Inr avail"
    and "get_years_to_process st' t avail b' = Inr ys'"
  shows "plan_table br st' t b' =
    (if ys' = [] then Return (UpToDate t) [] else Proceed dfy ys')"
  using assms
  by (auto simp: plan_table_def split: if_splits sum.splits option.splits)

lemma in_sync_init:
  "init_processor s0 = Inr s \<Longrightarrow> in_sync s \<and> bronze s = bronze s0 \<and> silver s = silver s0 \<and>
     state_file s = state_file s0 \<and> load_state (state_file s0) = Inr (state s)"
  by (auto simp: init_processor_def in_sync_def split: sum.splits)

lemma in_sync_same:
  assumes "in_sync s" and "state_file s' = state_file s"
    and "\<forall>t. get_processed_years (state s') t = get_processed_years (state s) t"
  shows "in_sync s'"
  using assms by (auto simp: in_sync_def)

lemma in_sync_saved: "state_file s = Complete (state s) \<Longrightarrow> in_sync s"
  by (simp add: in_sync_def load_state_def)

lemma execute_plan_sync:
  assumes "in_sync s"
  shows "in_sync (snd (execute_plan env t b dfy ys s))"
proof (cases rule: execute_plan_cases[where env=env and t=t and dfy=dfy and ys=ys and b=b and s=s])
  case (transform_raises e)
  then show ?thesis using assms by simp
next
  case (merge_raises dft e s1)
  then show ?thesis using build_final_frame[OF merge_raises(2)] in_sync_same[OF assms] by simp
next
  case (write_raises dft dff dft' s1 sv)
  then show ?thesis using build_final_frame[OF write_raises(2)] in_sync_same[OF assms] by simp
next
  case (mark_raises dft dff dft' s1 e s2)
  have "state_file s2 = state_file s"
    "\<forall>t'. get_processed_years (state s2) t' = get_processed_years (state s) t'"
    using build_final_frame[OF mark_raises(2)] mark_raise[OF mark_raises(4)] by simp_all
  then show ?thesis using mark_raises(5) in_sync_same[OF assms] by simp
next
  case (success dft dff dft' s1 s2)
  then show ?thesis using mark_ok(1)[OF success(4)] in_sync_saved by simp
qed

lemma process_table_incremental_sync:
  assumes "in_sync s"
  shows "in_sync (snd (process_table_incremental env t b s))"
proof -
  have "in_sync (snd (process_table_try env t b s))"
    using assms execute_plan_sync[OF assms]
    by (cases "plan_table (bronze s) (state s) t b")
      (simp_all add: process_table_try_def in_sync_def)
  then show ?thesis
    by (simp add: in_sync_def process_table_incremental_fields)
qed

lemma process_tables_Cons:
  "fst (process_tables env b (t # ts) s) =
     fst (process_table_incremental env t b s) #
     fst (process_tables env b ts (snd (process_table_incremental env t b s)))"
  "snd (process_tables env b (t # ts) s) =
     snd (process_tables env b ts (snd (process_table_incremental env t b s)))"
  by (simp_all split: prod.splits)

lemma process_tables_sync:
  "in_sync s \<Longrightarrow> in_sync (snd (process_tables env b ts s))"
proof (induction ts arbitrary: s)
  case Nil
  then show ?case by simp
next
  case (Cons t ts)
  have "in_sync (snd (process_table_incremental env t b s))"
    using Cons.prems by (rule process_table_incremental_sync)
  from Cons.IH[OF this] show ?case by (simp only: process_tables_Cons)
qed


lemma success_then_up_to_date:
  assumes "process_table_incremental env t False s = (Success t' ys n m, s')"
  shows "plan_table (bronze s') (state s') t False = Return (UpToDate t) []"
proof -
  from process_table_incremental_Success[OF assms] obtain dfy where
    p: "plan_table (bronze s) (state s) t False = Proceed dfy ys" and
    e: "execute_plan env t False dfy ys s = (Inr (Success t' ys n m), s')"
    by blast
  from plan_table_Proceed[OF p] obtain avail where
    a: "available_years_of dfy = Inr avail" and
    g: "get_years_to_process (state s) t avail False = Inr ys"
    by blast
  have ys: "set ys = set avail - get_processed_years (state s) t"
    using g by (auto simp: get_years_to_process_def dest: py_sorted_Inr)
  from execute_plan_Success[OF e] obtain dft dff dft' s1 where
    b: "build_final t False dft s = (Inr (dff, dft'), s1)" and
    k: "mark_years_processed env t ys (s1\<lparr>silver := (silver s1)(t \<mapsto> Parquet dff)\<rparr>) = (None, s')"
    by blast
  have pr: "get_processed_years (state s') t = get_processed_years (state s) t \<union> set ys"
    using mark_ok(2)[OF k] build_final_frame(3)[OF b] by simp
  have br: "bronze s' = bronze s"
    using mark_frame(1)[OF k] build_final_frame(1)[OF b] by simp
  have "[y \<leftarrow> avail. y \<notin> get_processed_years (state s') t] = []"
    using pr ys by (auto simp: filter_empty_conv)
  then have "get_years_to_process (state s') t avail False = Inr []"
    by (simp add: get_years_to_process_def py_sorted_def)
  from plan_table_replan[OF p a this] show ?thesis by (simp add: br)
qed

lemma up_to_date_step:
  assumes "plan_table (bronze s) (state s) t False = Return (UpToDate t) []"
  shows "plan_table (bronze (snd (process_table_incremental env t0 False s)))
           (state (snd (process_table_incremental env t0 False s))) t False =
           Return (UpToDate t) [] \<and>
         silver (snd (process_table_incremental env t0 False s)) t = silver s t \<and>
         state (snd (process_table_incremental env t0 False s)) t = state s t \<and>
         (t0 = t \<longrightarrow> process_table_incremental env t0 False s = (UpToDate t, s))"
proof (cases "t0 = t")
  case True
  have "process_table_incremental env t False s = (UpToDate t, s)"
    using assms by (simp add: process_table_incremental_def process_table_try_def)
  with True assms show ?thesis by simp
next
  case False
  then have "t \<noteq> t0" by simp
  note fr = process_table_incremental_frame(1)[where env=env and t=t0 and b=False and s=s]
    process_table_incremental_frame(2,3)[OF \<open>t \<noteq> t0\<close>, where env=env and b=False and s=s]
  have "plan_table (bronze (snd (process_table_incremental env t0 False s)))
           (state (snd (process_table_incremental env t0 False s))) t False =
        plan_table (bronze s) (state s) t False"
    unfolding fr(1) by (rule plan_table_local) (rule fr(3))
  with assms fr False show ?thesis by simp
qed

lemma up_to_date_outcome:
  assumes "fst (process_table_incremental env t b s) = UpToDate t'"
  shows "plan_table (bronze s) (state s) t b = Return (UpToDate t) [] \<and>
         process_table_incremental env t b s = (UpToDate t, s)"
proof (cases "plan_table (bronze s) (state s) t b")
  case (Return out w)
  then have f: "fst (process_table_incremental env t b s) = out"
    by (simp add: process_table_incremental_def process_table_try_def)
  with assms have "out = UpToDate t'" by simp
  with Return have "w = [] \<and> t' = t"
    by (auto simp: plan_table_def split: if_splits sum.splits option.splits)
  with Return \<open>out = UpToDate t'\<close> show ?thesis
    by (simp add: process_table_incremental_def process_table_try_def)
next
  case (Raise e)
  with assms show ?thesis by (simp add: process_table_incremental_def process_table_try_def)
next
  case (Proceed dfy ys)
  then have "fst (process_table_try env t b s) = fst (execute_plan env t b dfy ys s)"
    by (simp add: process_table_try_def)
  moreover have "fst (execute_plan env t b dfy ys s) \<noteq> Inr (UpToDate t')"
    by (cases rule: execute_plan_cases[where env=env and t=t and dfy=dfy and ys=ys and b=b and s=s])
      auto
  ultimately show ?thesis
    using assms by (auto simp: process_table_incremental_fst split: sum.splits)
qed

lemma current_then_up_to_date:
  assumes "is_current (fst (process_table_incremental env t False s))"
  shows "plan_table (bronze (snd (process_table_incremental env t False s)))
           (state (snd (process_table_incremental env t False s))) t False =
         Return (UpToDate t) []"
proof (cases "fst (process_table_incremental env t False s)")
  case (Success t' ys n m)
  then have "process_table_incremental env t False s =
      (Success t' ys n m, snd (process_table_incremental env t False s))"
    by (simp add: prod_eq_iff)
  then show ?thesis by (rule success_then_up_to_date)
next
  case (UpToDate t')
  from up_to_date_outcome[OF this] show ?thesis by simp
qed (use assms in simp_all)

lemma up_to_date_run:
  assumes "plan_table (bronze s) (state s) t False = Return (UpToDate t) []"
  shows "plan_table (bronze (snd (process_tables env False ts s)))
           (state (snd (process_tables env False ts s))) t False = Return (UpToDate t) [] \<and>
         silver (snd (process_tables env False ts s)) t = silver s t \<and>
         state (snd (process_tables env False ts s)) t = state s t \<and>
         (\<forall>i < length ts. ts ! i = t \<longrightarrow> fst (process_tables env False ts s) ! i = UpToDate t)"
  using assms
proof (induction ts arbitrary: s)
  case Nil
  then show ?case by simp
next
  case (Cons t0 ts)
  let ?s1 = "snd (process_table_incremental env t0 False s)"
  note st = up_to_date_step[OF Cons.prems, where env=env and ?t0.0=t0]
  from st have q: "plan_table (bronze ?s1) (state ?s1) t False = Return (UpToDate t) []"
    by simp
  note ih = Cons.IH[OF q]
  have "fst (process_tables env False (t0 # ts) s) ! i = UpToDate t"
    if "i < length (t0 # ts)" "(t0 # ts) ! i = t" for i
  proof (cases i)
    case 0
    with that st show ?thesis by (simp add: process_tables_Cons del: process_tables.simps)
  next
    case (Suc j)
    with that ih show ?thesis by (simp add: process_tables_Cons del: process_tables.simps)
  qed
  with st ih show ?case by (simp add: process_tables_Cons del: process_tables.simps)
qed

lemma current_in_run:
  assumes "i < length ts" and "is_current (fst (process_tables env False ts s) ! i)"
  shows "plan_table (bronze (snd (process_tables env False ts s)))
           (state (snd (process_tables env False ts s))) (ts ! i) False =
         Return (UpToDate (ts ! i)) []"
  using assms
proof (induction ts arbitrary: s i)
  case Nil
  then show ?case by simp
next
  case (Cons t0 ts)
  let ?s1 = "snd (process_table_incremental env t0 False s)"
  show ?case
  proof (cases i)
    case 0
    with Cons.prems have "is_current (fst (process_table_incremental env t0 False s))"
      by (simp add: process_tables_Cons del: process_tables.simps)
    from current_then_up_to_date[OF this]
    have "plan_table (bronze ?s1) (state ?s1) t0 False = Return (UpToDate t0) []" .
    from up_to_date_run[OF this, where env=env and ts=ts] 0 show ?thesis
      by (simp add: process_tables_Cons del: process_tables.simps)
  next
    case (Suc j)
    with Cons.prems have "j < length ts"
      "is_current (fst (process_tables env False ts ?s1) ! j)"
      by (simp_all add: process_tables_Cons del: process_tables.simps)
    from Cons.IH[OF this] Suc show ?thesis by (simp add: process_tables_Cons del: process_tables.simps)
  qed
qed

lemma all_up_to_date_run:
  assumes "\<forall>t \<in> set ts. plan_table (bronze s) (state s) t False = Return (UpToDate t) []"
  shows "process_tables env False ts s = (map UpToDate ts, s)"
  using assms
proof (induction ts)
  case Nil
  then show ?case by simp
next
  case (Cons t ts)
  then have "process_table_incremental env t False s = (UpToDate t, s)"
    by (simp add: process_table_incremental_def process_table_try_def)
  with Cons show ?case by simp
qed

lemma file_entry_run:
  assumes "plan_table (bronze s) (state s) t False = Return (UpToDate t) []"
    and "load_state (state_file s) = Inr st" and "st t = state s t"
  shows "\<exists>st'. load_state (state_file (snd (process_tables env False ts s))) = Inr st' \<and>
           st' t = st t"
  using assms
proof (induction ts arbitrary: s st)
  case Nil
  then show ?case by simp
next
  case (Cons t0 ts)
  let ?s1 = "snd (process_table_incremental env t0 False s)"
  note stp = up_to_date_step[OF Cons.prems(1), where env=env and ?t0.0=t0]
  from stp have q: "plan_table (bronze ?s1) (state ?s1) t False = Return (UpToDate t) []"
    and e: "state ?s1 t = state s t"
    by simp_all
  from process_table_incremental_file[where env=env and t=t0 and b=False and s=s]
  obtain st1 where st1: "load_state (state_file ?s1) = Inr st1" "st1 t = state ?s1 t"
    using Cons.prems(2,3) e by (auto simp: load_state_def)
  from Cons.IH[OF q st1] obtain st' where
    "load_state (state_file (snd (process_tables env False ts ?s1))) = Inr st'" "st' t = st1 t"
    by blast
  then show ?case using st1(2) Cons.prems(3) e
    by (simp add: process_tables_Cons del: process_tables.simps)
qed

section \<open>The planner\<close>

text \<open>
  Claim C6. In incremental mode, that is when bootstrap is not requested or the table
  already has processed years, \<^verbatim>\<open>get_years_to_process\<close> returns the available years
  that are not processed, whether above or below the cutoff: on available years that are
  all resolved it returns that list sorted in ascending order, and whenever it returns,
  the result holds exactly the set difference, is sorted, and has no duplicates when the
  available years have none (the caller passes the \<^verbatim>\<open>unique()\<close> values).
\<close>

theorem planner_incremental_mode:
  assumes "\<not> is_initial_load \<or> get_processed_years st table_name \<noteq> {}"
  shows "(None \<notin> set available_years \<longrightarrow>
           get_years_to_process st table_name available_years is_initial_load =
             Inr (sort [y \<leftarrow> available_years. y \<notin> get_processed_years st table_name])) \<and>
         (\<forall>ys. get_years_to_process st table_name available_years is_initial_load = Inr ys \<longrightarrow>
            set ys = set available_years - get_processed_years st table_name \<and>
            sorted ys \<and> (distinct available_years \<longrightarrow> distinct ys))"
  using assms
  by (auto simp: get_years_to_process_def Let_def py_sorted_def split: if_splits)

text \<open>
  With 2009 and 2011 processed and bootstrap requested, the years 2005 (below the cutoff)
  and 2012 (above it) are planned, in ascending order.
\<close>

theorem planner_incremental_mode_witness:
  "get_processed_years example_state ''races'' \<noteq> {} \<and>
   get_years_to_process example_state ''races''
     [Some 2012, Some 2009, Some 2005, Some 2011] True = Inr [Some 2005, Some 2012] \<and>
   set [Some 2005, Some 2012 :: year] =
     set [Some 2012, Some 2009, Some 2005, Some 2011] - get_processed_years example_state ''races'' \<and>
   sorted [Some 2005, Some 2012 :: year] \<and> distinct [Some 2005, Some 2012 :: year]"
proof -
  have h: "\<not> True \<or> get_processed_years example_state ''races'' \<noteq> {}"
    by (simp add: get_processed_years_def example_state_def)
  have e: "get_years_to_process example_state ''races''
     [Some 2012, Some 2009, Some 2005, Some 2011] True = Inr [Some 2005, Some 2012]"
    by (simp add: get_years_to_process_def get_processed_years_def example_state_def py_sorted_def)
  from planner_incremental_mode[OF h, of "[Some 2012, Some 2009, Some 2005, Some 2011]"] e
  have "set [Some 2005, Some 2012 :: year] =
     set [Some 2012, Some 2009, Some 2005, Some 2011] - get_processed_years example_state ''races'' \<and>
     sorted [Some 2005, Some 2012 :: year]"
    by blast
  with e h show ?thesis by simp
qed

text \<open>
  Claim C2 says that the planner selects by the cutoff whenever no year is processed, or
  whenever bootstrap is requested. Neither condition is enough alone. With 2009 processed
  and bootstrap requested, the years 2005, 2009, 2012 give the plan 2005, 2012 and not
  the years up to the cutoff (2005, 2009). With nothing processed and no bootstrap
  request, the years 2005, 2012 are both planned, not 2005 alone.
\<close>

theorem planner_bootstrap_counterexample:
  "get_years_to_process example_state ''races'' [Some 2005, Some 2009, Some 2012] True =
     Inr [Some 2005, Some 2012] \<and>
   [y \<leftarrow> [Some 2005, Some 2009, Some 2012]. y \<le> Some INITIAL_LOAD_YEAR] = [Some 2005, Some 2009] \<and>
   get_processed_years Map.empty ''results'' = {} \<and>
   get_years_to_process Map.empty ''results'' [Some 2005, Some 2012] False =
     Inr [Some 2005, Some 2012] \<and>
   [y \<leftarrow> [Some 2005, Some 2012]. y \<le> Some INITIAL_LOAD_YEAR] = [Some 2005]"
  by (simp add: get_years_to_process_def get_processed_years_def example_state_def py_sorted_def
      INITIAL_LOAD_YEAR_def)

text \<open>
  Claim C2, amended. The planner runs in bootstrap mode, returning exactly the available
  years at or before \<^verbatim>\<open>INITIAL_LOAD_YEAR\<close> in ascending order, when bootstrap is
  requested and no year of the table is processed yet; in every other case it returns the
  available years that are not processed.
\<close>

theorem planner_mode_selection:
  assumes "None \<notin> set available_years"
  shows "get_years_to_process st table_name available_years is_initial_load =
    (if is_initial_load \<and> get_processed_years st table_name = {}
     then Inr (sort [y \<leftarrow> available_years. y \<le> Some INITIAL_LOAD_YEAR])
     else Inr (sort [y \<leftarrow> available_years. y \<notin> get_processed_years st table_name]))"
proof -
  have "None \<notin> set [y \<leftarrow> available_years. y \<le> Some INITIAL_LOAD_YEAR]"
    "None \<notin> set [y \<leftarrow> available_years. y \<notin> get_processed_years st table_name]"
    using assms by auto
  then show ?thesis
    using assms
    by (simp add: get_years_to_process_def Let_def up_to_cutoff_no_null py_sorted_def
        del: set_filter)
qed

text \<open>
  The years 2005, 2008, 2012, 2015 with the cutoff 2010: the initial load plans 2005 and
  2008; once these are processed, a bootstrap request plans 2012 and 2015.
\<close>

theorem planner_mode_selection_witness:
  "None \<notin> set [Some 2005, Some 2008, Some 2012, Some (2015::int)] \<and>
   get_years_to_process Map.empty ''results'' [Some 2005, Some 2008, Some 2012, Some 2015] True =
     Inr [Some 2005, Some 2008] \<and>
   get_years_to_process
     [''results'' \<mapsto> \<lparr>processed_years = [Some 2005, Some 2008], last_update = None\<rparr>]
     ''results'' [Some 2005, Some 2008, Some 2012, Some 2015] True = Inr [Some 2012, Some 2015]"
proof -
  have h: "None \<notin> set [Some 2005, Some 2008, Some 2012, Some (2015::int)]" by simp
  show ?thesis
    using h planner_mode_selection[OF h, of Map.empty "''results''" True]
      planner_mode_selection[OF h,
        of "[''results'' \<mapsto> \<lparr>processed_years = [Some 2005, Some 2008], last_update = None\<rparr>]"
          "''results''" True]
    by (simp add: get_processed_years_def INITIAL_LOAD_YEAR_def)
qed

section \<open>The state store\<close>

text \<open>
  Claim C3 says that a crash at any point of the persist leaves a file in which the next
  load finds the complete previous state or the complete new state. The state file is
  opened for writing in place: at the second point of the persist of \<open>example_state\<close>
  over a missing file, the file is a proper prefix of the new text, and loading it gives
  neither the previous (empty) state nor the new one.
\<close>

theorem save_state_not_atomic_counterexample:
  "\<not> (load_state (save_state_points example_state NoFile ! 1) = load_state NoFile \<or>
      load_state (save_state_points example_state NoFile ! 1) = Inr example_state)"
  by (simp add: save_state_points_def load_state_def)

text \<open>
  Claim C3, amended. \<^verbatim>\<open>mark_years_processed\<close> adds the years to the processed years of
  the table and persists the entire state object by overwriting the state file in place:
  once it has returned, the next load observes the complete new state; at a point of the
  persist, the load observes the previous state, the new state, or raises on a truncated
  file.
\<close>

theorem commit_overwrites_in_place:
  assumes "mark_years_processed env table_name years s = (None, s')"
  shows "load_state (state_file s') = Inr (state s') \<and>
         get_processed_years (state s') table_name =
           get_processed_years (state s) table_name \<union> set years \<and>
         (\<forall>f \<in> set (save_state_points (state s') (state_file s)).
            load_state f = load_state (state_file s) \<or> load_state f = Inr (state s') \<or>
            load_state f = Inl JSONDecodeError)"
  using mark_ok[OF assms] by (simp add: load_state_def save_state_points_def)

text \<open>Marking 2009 for \<^verbatim>\<open>results\<close> on an empty state with no state file.\<close>

theorem commit_overwrites_in_place_witness:
  "mark_years_processed example_env ''results'' [Some 2009]
     (example_sys\<lparr>state_file := NoFile, state := Map.empty\<rparr>) =
     (None, example_sys\<lparr>state_file := Complete
        [''results'' \<mapsto> \<lparr>processed_years = [Some 2009], last_update = Some ''2024-03-01T12:00:00''\<rparr>],
        state := [''results'' \<mapsto> \<lparr>processed_years = [Some 2009], last_update = Some ''2024-03-01T12:00:00''\<rparr>]\<rparr>) \<and>
   load_state (Complete
        [''results'' \<mapsto> \<lparr>processed_years = [Some 2009], last_update = Some ''2024-03-01T12:00:00''\<rparr>]) =
     Inr [''results'' \<mapsto> \<lparr>processed_years = [Some 2009], last_update = Some ''2024-03-01T12:00:00''\<rparr>]"
proof -
  have h: "mark_years_processed example_env ''results'' [Some 2009]
     (example_sys\<lparr>state_file := NoFile, state := Map.empty\<rparr>) =
     (None, example_sys\<lparr>state_file := Complete
        [''results'' \<mapsto> \<lparr>processed_years = [Some 2009], last_update = Some ''2024-03-01T12:00:00''\<rparr>],
        state := [''results'' \<mapsto> \<lparr>processed_years = [Some 2009], last_update = Some ''2024-03-01T12:00:00''\<rparr>]\<rparr>)"
    by (simp add: mark_years_processed_def py_sorted_def save_state_def save_state_points_def
        example_env_def example_sys_def)
  from commit_overwrites_in_place[OF h] h show ?thesis by simp
qed

section \<open>The run over all fact tables\<close>

text \<open>
  Claim C9. \<^verbatim>\<open>process_all_incremental\<close> goes through \<^verbatim>\<open>TABLES_WITH_YEAR\<close> in its
  fixed order and returns exactly one outcome for each table. The outcome of every table,
  and what the run leaves in the silver file and in the state entry of that table, are
  those of processing the table alone on the system as the run found it, whatever
  happened to the other tables. An exception raised while a table is processed becomes
  the failed outcome of that table.
\<close>

theorem run_isolates_tables:
  "map table_name_of (fst (process_all_incremental env is_initial_load s)) = TABLES_WITH_YEAR \<and>
   fst (process_all_incremental env is_initial_load s) =
     map (\<lambda>t. fst (process_table_incremental env t is_initial_load s)) TABLES_WITH_YEAR \<and>
   (\<forall>t \<in> set TABLES_WITH_YEAR.
      silver (snd (process_all_incremental env is_initial_load s)) t =
        silver (snd (process_table_incremental env t is_initial_load s)) t \<and>
      state (snd (process_all_incremental env is_initial_load s)) t =
        state (snd (process_table_incremental env t is_initial_load s)) t) \<and>
   (\<forall>t e. fst (process_table_try env t is_initial_load s) = Inl e \<longrightarrow>
      fst (process_table_incremental env t is_initial_load s) = Failed t (Raised e))"
proof (intro conjI allI impI ballI)
  show "silver (snd (process_all_incremental env is_initial_load s)) t =
        silver (snd (process_table_incremental env t is_initial_load s)) t"
    "state (snd (process_all_incremental env is_initial_load s)) t =
        state (snd (process_table_incremental env t is_initial_load s)) t"
    if "t \<in> set TABLES_WITH_YEAR" for t
    using process_all_effect[OF that] by simp_all
  show "map table_name_of (fst (process_all_incremental env is_initial_load s)) = TABLES_WITH_YEAR"
    by (simp add: process_all_isolated process_table_incremental_name comp_def)
  show "fst (process_all_incremental env is_initial_load s) =
     map (\<lambda>t. fst (process_table_incremental env t is_initial_load s)) TABLES_WITH_YEAR"
    by (rule process_all_isolated)
  show "fst (process_table_incremental env t is_initial_load s) = Failed t (Raised e)"
    if "fst (process_table_try env t is_initial_load s) = Inl e" for t e
    using that by (simp add: process_table_incremental_fst)
qed

text \<open>
  With a failing write for the driver standings, the constructor standings, processed
  next, are merged all the same.
\<close>

theorem run_isolates_tables_witness:
  "fst (process_table_try example_faulty_env ''driver_standings'' False example_sys) =
     Inl WriteError \<and>
   fst (process_all_incremental example_faulty_env False example_sys) =
    [UpToDate ''races'', Failed ''results'' bronze_file_not_found,
     Failed ''qualifying'' bronze_file_not_found,
     Failed ''sprint_results'' bronze_file_not_found,
     Failed ''lap_times'' bronze_file_not_found,
     Failed ''pit_stops'' bronze_file_not_found,
     Failed ''driver_standings'' (Raised WriteError),
     Success ''constructor_standings'' [Some 2009, Some 2011] 2 2,
     Failed ''constructor_results'' bronze_file_not_found]"
proof -
  have r: "fst (process_table_try example_faulty_env ''driver_standings'' False example_sys) =
     Inl WriteError"
    by (simp add: run_defs example_defs)
  have o: "map (\<lambda>t. fst (process_table_incremental example_faulty_env t False example_sys))
      [''races'', ''results'', ''qualifying'', ''sprint_results'', ''lap_times'', ''pit_stops'',
       ''constructor_standings'', ''constructor_results''] =
    [UpToDate ''races'', Failed ''results'' bronze_file_not_found,
     Failed ''qualifying'' bronze_file_not_found,
     Failed ''sprint_results'' bronze_file_not_found,
     Failed ''lap_times'' bronze_file_not_found,
     Failed ''pit_stops'' bronze_file_not_found,
     Success ''constructor_standings'' [Some 2009, Some 2011] 2 2,
     Failed ''constructor_results'' bronze_file_not_found]"
    by (simp add: run_defs example_defs)
  from run_isolates_tables[of example_faulty_env False example_sys] r o
  show ?thesis by (simp add: TABLES_WITH_YEAR_def)
qed

text \<open>
  Claim C5 says that a missing bronze file aborts the whole run and is not turned into an
  outcome of the table. In the example the bronze file of \<^verbatim>\<open>results\<close>, the second
  table, is missing: the run reports a failed outcome for it and goes on, and the
  standings tables after it are merged.
\<close>

theorem missing_bronze_counterexample:
  "bronze example_sys ''results'' = None \<and>
   fst (process_all_incremental example_env False example_sys) =
    [UpToDate ''races'', Failed ''results'' bronze_file_not_found,
     Failed ''qualifying'' bronze_file_not_found,
     Failed ''sprint_results'' bronze_file_not_found,
     Failed ''lap_times'' bronze_file_not_found,
     Failed ''pit_stops'' bronze_file_not_found,
     Success ''driver_standings'' [Some 2009, Some 2011] 2 2,
     Success ''constructor_standings'' [Some 2009, Some 2011] 2 2,
     Failed ''constructor_results'' bronze_file_not_found]"
  using example_run by (simp add: example_sys_def)

text \<open>
  Claim C5, amended. A missing bronze file of a fact table is an error of that table
  alone: the table gets the failed outcome \<^verbatim>\<open>bronze_file_not_found\<close>, no store is
  touched (a warning is logged), and the run goes on with the tables that follow.
\<close>

theorem missing_bronze_fails_one_table:
  assumes "has_year_column table_name" and "bronze s table_name = None"
  shows "process_table_incremental env table_name is_initial_load s =
           (Failed table_name bronze_file_not_found,
            s\<lparr>logged := logged s @ [BronzeFileNotFound table_name]\<rparr>) \<and>
         process_tables env is_initial_load (table_name # tables) s =
           (Failed table_name bronze_file_not_found #
              fst (process_tables env is_initial_load tables
                    (s\<lparr>logged := logged s @ [BronzeFileNotFound table_name]\<rparr>)),
            snd (process_tables env is_initial_load tables
                    (s\<lparr>logged := logged s @ [BronzeFileNotFound table_name]\<rparr>)))"
  using assms
  by (simp add: process_table_incremental_def process_table_try_def plan_table_def
      split: prod.splits)

text \<open>The pit stops have no bronze file; the driver standings are processed after them.\<close>

theorem missing_bronze_fails_one_table_witness:
  "has_year_column ''pit_stops'' \<and> bronze example_sys ''pit_stops'' = None \<and>
   process_tables example_env False [''pit_stops'', ''driver_standings''] example_sys =
     ([Failed ''pit_stops'' bronze_file_not_found,
       Success ''driver_standings'' [Some 2009, Some 2011] 2 2],
      snd (process_tables example_env False [''driver_standings'']
        (example_sys\<lparr>logged := logged example_sys @ [BronzeFileNotFound ''pit_stops'']\<rparr>)))"
proof -
  have h1: "has_year_column ''pit_stops''" by (simp add: has_year_column_def TABLES_WITH_YEAR_def)
  have h2: "bronze example_sys ''pit_stops'' = None" by (simp add: example_sys_def)
  have e: "fst (process_tables example_env False [''driver_standings'']
        (example_sys\<lparr>logged := logged example_sys @ [BronzeFileNotFound ''pit_stops'']\<rparr>)) =
      [Success ''driver_standings'' [Some 2009, Some 2011] 2 2]"
    by (simp add: run_defs example_defs split: prod.splits)
  from missing_bronze_fails_one_table[OF h1 h2, of example_env False "[''driver_standings'']"] h1 h2 e
  show ?thesis by (simp del: process_tables.simps)
qed

section \<open>Processing one table: failures and commits\<close>

text \<open>
  Claim C1. When the plan of a table is not empty, the transform and the merge succeed
  and the write of the merged data frame raises, \<^verbatim>\<open>process_table_incremental\<close> returns
  a failed outcome, the state in memory and the state file are what they were (the
  commit is not reached), so the processed years of the table are unchanged, and planning
  the table again on the system it leaves gives the same data and the same years.
\<close>

theorem write_failure_keeps_state:
  assumes "plan_table (bronze s) (state s) table_name is_initial_load =
             Proceed df_with_year years_to_process"
    and "apply_transform env table_name (filter_years env df_with_year years_to_process) =
           Inr df_transformed"
    and "build_final table_name is_initial_load df_transformed s =
           (Inr (df_final, df_transformed'), s1)"
    and "write_fault env table_name = Some r"
    and "process_table_incremental env table_name is_initial_load s = (out, s')"
  shows "out = Failed table_name (Raised WriteError) \<and>
         state s' = state s \<and> state_file s' = state_file s \<and> bronze s' = bronze s \<and>
         get_processed_years (state s') table_name = get_processed_years (state s) table_name \<and>
         plan_table (bronze s') (state s') table_name is_initial_load =
           Proceed df_with_year years_to_process"
proof -
  have e: "execute_plan env table_name is_initial_load df_with_year years_to_process s =
      (Inl WriteError,
       s1\<lparr>silver := (case r of Untouched \<Rightarrow> silver s1
                      | Damaged \<Rightarrow> (silver s1)(table_name \<mapsto> Corrupt))\<rparr>)"
    using assms(2,3,4) by (simp add: execute_plan_def write_parquet_def split: residue.splits)
  have "out = Failed table_name (Raised WriteError)"
    and s': "s' = s1\<lparr>silver := (case r of Untouched \<Rightarrow> silver s1
                      | Damaged \<Rightarrow> (silver s1)(table_name \<mapsto> Corrupt)),
                  logged := logged s1 @ [ErrorProcessing table_name WriteError]\<rparr>"
    using assms(1,5) e by (simp_all add: process_table_incremental_def process_table_try_def)
  moreover have "state s' = state s" "state_file s' = state_file s" "bronze s' = bronze s"
    using build_final_frame[OF assms(3)] by (simp_all add: s')
  ultimately show ?thesis using assms(1) by simp
qed

text \<open>The write of the driver standings fails and leaves a damaged file.\<close>

theorem write_failure_keeps_state_witness:
  "write_fault example_faulty_env ''driver_standings'' = Some Damaged \<and>
   plan_table (bronze example_sys) (state example_sys) ''driver_standings'' False =
     Proceed example_standings_with_year [Some 2009, Some 2011] \<and>
   fst (process_table_incremental example_faulty_env ''driver_standings'' False example_sys) =
     Failed ''driver_standings'' (Raised WriteError) \<and>
   state (snd (process_table_incremental example_faulty_env ''driver_standings'' False example_sys)) =
     example_state \<and>
   state_file (snd (process_table_incremental example_faulty_env ''driver_standings'' False example_sys)) =
     Complete example_state \<and>
   plan_table (bronze example_sys)
     (state (snd (process_table_incremental example_faulty_env ''driver_standings'' False example_sys)))
     ''driver_standings'' False = Proceed example_standings_with_year [Some 2009, Some 2011]"
proof -
  have h1: "plan_table (bronze example_sys) (state example_sys) ''driver_standings'' False =
     Proceed example_standings_with_year [Some 2009, Some 2011]"
    by (simp add: run_defs example_defs)
  have h2: "apply_transform example_faulty_env ''driver_standings''
      (filter_years example_faulty_env example_standings_with_year [Some 2009, Some 2011]) =
      Inr example_standings_with_year"
    by (simp add: run_defs example_defs)
  have h3: "build_final ''driver_standings'' False example_standings_with_year example_sys =
      (Inr (example_standings_with_year, example_standings_with_year), example_sys)"
    by (simp add: build_final_def example_sys_def)
  have h4: "write_fault example_faulty_env ''driver_standings'' = Some Damaged"
    by (simp add: example_defs)
  have h5: "process_table_incremental example_faulty_env ''driver_standings'' False example_sys =
      (fst (process_table_incremental example_faulty_env ''driver_standings'' False example_sys),
       snd (process_table_incremental example_faulty_env ''driver_standings'' False example_sys))"
    by simp
  from write_failure_keeps_state[OF h1 h2 h3 h4 h5] h1 h4
  show ?thesis by (simp add: example_sys_def)
qed

section \<open>Merging with the existing silver file\<close>

text \<open>
  Claim C7 says that merging into an existing file with a different column set yields a
  merged data set with exactly the common columns. Nothing is cast, so this fails when a
  common column has different dtypes on the two sides: merging the columns C, B, A, with
  B read as text, into an existing file with the columns A, B, D, with B an integer, logs
  the warnings and then raises in the concatenation. In \<open>example_sys_drift\<close> the driver
  standings of 2011 meet a silver file that holds the points as text: the table fails and
  the silver file stays as it was.
\<close>

theorem schema_dtype_counterexample:
  "set (columns example_existing_abd) \<noteq> set (columns example_incoming_cba_text) \<and>
   build_final ''driver_standings'' False example_incoming_cba_text
     (example_sys\<lparr>silver := [''driver_standings'' \<mapsto> Parquet example_existing_abd]\<rparr>) =
     (Inl SchemaError,
      example_sys\<lparr>silver := [''driver_standings'' \<mapsto> Parquet example_existing_abd],
        logged := [SchemaMismatch, ExistingOnly {''D''}, NewOnly {''C''}]\<rparr>) \<and>
   fst (process_table_incremental example_env ''driver_standings'' False example_sys_drift) =
     Failed ''driver_standings'' (Raised SchemaError) \<and>
   silver (snd (process_table_incremental example_env ''driver_standings'' False example_sys_drift))
     ''driver_standings'' = Some (Parquet example_merged_text)"
proof -
  have "''D'' \<in> set (columns example_existing_abd)"
    "''D'' \<notin> set (columns example_incoming_cba_text)"
    by (simp_all add: example_defs)
  then have h: "set (columns example_existing_abd) \<noteq> set (columns example_incoming_cba_text)"
    by blast
  have b: "build_final ''driver_standings'' False example_incoming_cba_text
     (example_sys\<lparr>silver := [''driver_standings'' \<mapsto> Parquet example_existing_abd]\<rparr>) =
     (Inl SchemaError,
      example_sys\<lparr>silver := [''driver_standings'' \<mapsto> Parquet example_existing_abd],
        logged := [SchemaMismatch, ExistingOnly {''D''}, NewOnly {''C''}]\<rparr>)"
    using h
    by (simp add: build_final_def read_parquet_def select_def cell_at_def dtype_at_def
        pl_concat_def common_cols_list_def Let_def example_defs insert_Diff_if)
  have "''position'' \<in> set (columns example_merged_text)"
    "''position'' \<notin> set (columns example_standings_with_year)"
    by (simp_all add: example_defs)
  then have d: "set (columns example_merged_text) \<noteq> set (columns example_standings_with_year)"
    by blast
  have p: "fst (process_table_incremental example_env ''driver_standings'' False
      example_sys_drift) = Failed ''driver_standings'' (Raised SchemaError)"
    "silver (snd (process_table_incremental example_env ''driver_standings'' False
      example_sys_drift)) ''driver_standings'' = Some (Parquet example_merged_text)"
    using d
    by (simp_all add: run_defs pl_concat_def common_cols_list_def example_defs)
  from h b p show ?thesis by simp
qed

text \<open>
  Claim C7, amended. When the table has a silver file, no initial load is requested and
  the column set of the file differs from that of the transformed frame, both frames are
  projected to the sorted list of their common columns and the warnings that are logged
  name the columns found on one side only. When the common columns have the same dtypes
  on both sides, the concatenation gives a merged frame with exactly the common columns,
  existing rows first, every cell of it a cell of one of the two frames. When a common
  column differs in dtype, the concatenation raises.
\<close>

theorem schema_reconciliation:
  assumes "silver s table_name = Some (Parquet df_existing)"
    and "set (columns df_existing) \<noteq> set (columns df_transformed)"
  shows "\<exists>df_existing' df_transformed'.
    select df_existing (common_cols_list df_existing df_transformed) = Inr df_existing' \<and>
    select df_transformed (common_cols_list df_existing df_transformed) = Inr df_transformed' \<and>
    build_final table_name False df_transformed s =
      (if dtypes df_existing' = dtypes df_transformed'
       then Inr (\<lparr>columns = common_cols_list df_existing df_transformed,
                  dtypes = dtypes df_existing',
                  rows = rows df_existing' @ rows df_transformed'\<rparr>, df_transformed')
       else Inl SchemaError,
       s\<lparr>logged := logged s @
          [SchemaMismatch,
           ExistingOnly (set (columns df_existing) - set (columns df_transformed)),
           NewOnly (set (columns df_transformed) - set (columns df_existing))]\<rparr>) \<and>
    common_cols_list df_existing df_transformed =
      sorted_list_of_set (set (columns df_existing) \<inter> set (columns df_transformed))"
proof -
  let ?cs = "common_cols_list df_existing df_transformed"
  obtain e' where e': "select df_existing ?cs = Inr e'" "columns e' = ?cs"
    by (simp add: select_def common_cols_list_props)
  obtain t' where t': "select df_transformed ?cs = Inr t'" "columns t' = ?cs"
    by (simp add: select_def common_cols_list_props)
  have "build_final table_name False df_transformed s =
      (if dtypes e' = dtypes t'
       then Inr (\<lparr>columns = ?cs, dtypes = dtypes e', rows = rows e' @ rows t'\<rparr>, t')
       else Inl SchemaError,
       s\<lparr>logged := logged s @
          [SchemaMismatch,
           ExistingOnly (set (columns df_existing) - set (columns df_transformed)),
           NewOnly (set (columns df_transformed) - set (columns df_existing))]\<rparr>)"
    using assms e' t' by (simp add: build_final_def read_parquet_def pl_concat_def Let_def)
  with e' t' show ?thesis using common_cols_list_eq by blast
qed

text \<open>
  Merging the integer columns C, B, A into an existing file with the integer columns
  A, B, D gives the columns A, B, and warnings that name D and C.
\<close>

theorem schema_reconciliation_witness:
  "set (columns example_existing_abd) \<noteq> set (columns example_incoming_cba) \<and>
   sorted_list_of_set (set (columns example_existing_abd) \<inter> set (columns example_incoming_cba)) =
     [''A'', ''B''] \<and>
   build_final ''driver_standings'' False example_incoming_cba
     (example_sys\<lparr>silver := [''driver_standings'' \<mapsto> Parquet example_existing_abd]\<rparr>) =
     (Inr (\<lparr>columns = [''A'', ''B''], dtypes = [Int64, Int64],
             rows = [[Some 1, Some 2], [Some 10, Some 20]]\<rparr>,
           \<lparr>columns = [''A'', ''B''], dtypes = [Int64, Int64], rows = [[Some 10, Some 20]]\<rparr>),
      example_sys\<lparr>silver := [''driver_standings'' \<mapsto> Parquet example_existing_abd],
        logged := [SchemaMismatch, ExistingOnly {''D''}, NewOnly {''C''}]\<rparr>)"
proof -
  let ?s = "example_sys\<lparr>silver := [''driver_standings'' \<mapsto> Parquet example_existing_abd]\<rparr>"
  have h1: "silver ?s ''driver_standings'' = Some (Parquet example_existing_abd)" by simp
  have "''D'' \<in> set (columns example_existing_abd)" "''D'' \<notin> set (columns example_incoming_cba)"
    by (simp_all add: example_defs)
  then have h2: "set (columns example_existing_abd) \<noteq> set (columns example_incoming_cba)"
    by blast
  have cs: "common_cols_list example_existing_abd example_incoming_cba = [''A'', ''B'']"
    by (simp add: common_cols_list_def example_defs)
  have e: "build_final ''driver_standings'' False example_incoming_cba ?s =
     (Inr (\<lparr>columns = [''A'', ''B''], dtypes = [Int64, Int64],
             rows = [[Some 1, Some 2], [Some 10, Some 20]]\<rparr>,
           \<lparr>columns = [''A'', ''B''], dtypes = [Int64, Int64], rows = [[Some 10, Some 20]]\<rparr>),
      example_sys\<lparr>silver := [''driver_standings'' \<mapsto> Parquet example_existing_abd],
        logged := [SchemaMismatch, ExistingOnly {''D''}, NewOnly {''C''}]\<rparr>)"
    using h2
    by (simp add: build_final_def read_parquet_def select_def cell_at_def dtype_at_def
        pl_concat_def common_cols_list_def Let_def example_defs insert_Diff_if)
  have l: "sorted_list_of_set (set (columns example_existing_abd) \<inter> set (columns example_incoming_cba)) =
     [''A'', ''B'']"
    using schema_reconciliation[OF h1 h2] cs by auto
  from l h2 e show ?thesis by simp
qed

text \<open>
  Claim C10. When the table has processed years and \<^verbatim>\<open>process_table_incremental\<close>
  is called with the initial load requested, the planner works in incremental mode (the
  available years that are not processed) and the frame to write is the transformed
  frame alone, whatever the silver file holds. A successful call has therefore written
  the transformed rows of the planned years as the whole silver file, and the processed
  years are the previous ones together with the planned ones.
\<close>

theorem forced_bootstrap_overwrites:
  assumes "get_processed_years (state s) table_name \<noteq> {}"
  shows "(\<forall>available_years.
            get_years_to_process (state s) table_name available_years True =
              py_sorted [y \<leftarrow> available_years. y \<notin> get_processed_years (state s) table_name]) \<and>
         (\<forall>df_transformed.
            build_final table_name True df_transformed s =
              (Inr (df_transformed, df_transformed), s)) \<and>
         (\<forall>t ys n m s'.
            process_table_incremental env table_name True s = (Success t ys n m, s') \<longrightarrow>
            (\<exists>df_with_year available_years df_transformed.
               plan_table (bronze s) (state s) table_name True = Proceed df_with_year ys \<and>
               available_years_of df_with_year = Inr available_years \<and>
               ys = sort [y \<leftarrow> available_years.
                            y \<notin> get_processed_years (state s) table_name] \<and>
               apply_transform env table_name (filter_years env df_with_year ys) =
                 Inr df_transformed \<and>
               silver s' table_name = Some (Parquet df_transformed) \<and>
               n = length (rows df_transformed) \<and> m = length (rows df_transformed) \<and>
               get_processed_years (state s') table_name =
                 get_processed_years (state s) table_name \<union> set ys))"
proof (intro conjI allI impI)
  fix available_years
  show "get_years_to_process (state s) table_name available_years True =
      py_sorted [y \<leftarrow> available_years. y \<notin> get_processed_years (state s) table_name]"
    using assms by (simp add: get_years_to_process_def)
next
  fix df_transformed
  show "build_final table_name True df_transformed s = (Inr (df_transformed, df_transformed), s)"
    by (simp add: build_final_def)
next
  fix t ys n m s'
  assume r: "process_table_incremental env table_name True s = (Success t ys n m, s')"
  from process_table_incremental_Success[OF r] obtain dfy where
    p: "plan_table (bronze s) (state s) table_name True = Proceed dfy ys" and
    e: "execute_plan env table_name True dfy ys s = (Inr (Success t ys n m), s')"
    by blast
  from plan_table_Proceed[OF p] obtain avail where
    a: "available_years_of dfy = Inr avail" and
    g: "get_years_to_process (state s) table_name avail True = Inr ys"
    by blast
  have ys: "ys = sort [y \<leftarrow> avail. y \<notin> get_processed_years (state s) table_name]"
    using g assms by (auto simp: get_years_to_process_def dest: py_sorted_Inr)
  from execute_plan_Success[OF e] obtain dft dff dft' s1 where
    t: "apply_transform env table_name (filter_years env dfy ys) = Inr dft" and
    b: "build_final table_name True dft s = (Inr (dff, dft'), s1)" and
    k: "mark_years_processed env table_name ys
          (s1\<lparr>silver := (silver s1)(table_name \<mapsto> Parquet dff)\<rparr>) = (None, s')" and
    nm: "n = length (rows dft')" "m = length (rows dff)"
    by blast
  have d: "dff = dft" "dft' = dft" "s1 = s" using b by (auto simp: build_final_def)
  have "silver s' table_name = Some (Parquet dft)"
    using mark_frame(2)[OF k] d by simp
  moreover have "get_processed_years (state s') table_name =
      get_processed_years (state s) table_name \<union> set ys"
    using mark_ok(2)[OF k] d by simp
  ultimately show "\<exists>df_with_year available_years df_transformed.
               plan_table (bronze s) (state s) table_name True = Proceed df_with_year ys \<and>
               available_years_of df_with_year = Inr available_years \<and>
               ys = sort [y \<leftarrow> available_years.
                            y \<notin> get_processed_years (state s) table_name] \<and>
               apply_transform env table_name (filter_years env df_with_year ys) =
                 Inr df_transformed \<and>
               silver s' table_name = Some (Parquet df_transformed) \<and>
               n = length (rows df_transformed) \<and> m = length (rows df_transformed) \<and>
               get_processed_years (state s') table_name =
                 get_processed_years (state s) table_name \<union> set ys"
    using p a ys t nm d by blast
qed

text \<open>
  The driver standings of 2009 are merged and marked; an initial load then plans 2011
  alone and leaves a silver file with the row of 2011 only, while 2009 stays marked.
\<close>

theorem forced_bootstrap_overwrites_witness:
  "get_processed_years (state example_sys_2009) ''driver_standings'' = {Some 2009} \<and>
   silver example_sys_2009 ''driver_standings'' = Some (Parquet example_merged_2009) \<and>
   fst (process_table_incremental example_env ''driver_standings'' True example_sys_2009) =
     Success ''driver_standings'' [Some 2011] 1 1 \<and>
   silver (snd (process_table_incremental example_env ''driver_standings'' True example_sys_2009))
     ''driver_standings'' =
     Some (Parquet \<lparr>columns = [''raceId'', ''points'', ''year''],
                    dtypes = [Int64, Int64, Int64],
                    rows = [[Some 2, Some 8, Some 2011]]\<rparr>) \<and>
   get_processed_years
     (state (snd (process_table_incremental example_env ''driver_standings'' True example_sys_2009)))
     ''driver_standings'' = {Some 2009, Some 2011}"
proof -
  let ?r = "process_table_incremental example_env ''driver_standings'' True example_sys_2009"
  have h1: "get_processed_years (state example_sys_2009) ''driver_standings'' \<noteq> {}"
    by (simp add: get_processed_years_def example_defs)
  have o: "fst ?r = Success ''driver_standings'' [Some 2011] 1 1"
    by (simp add: run_defs example_defs)
  then have h2: "?r = (Success ''driver_standings'' [Some 2011] 1 1, snd ?r)"
    by (simp add: prod_eq_iff)
  have sv: "silver (snd ?r) ''driver_standings'' =
     Some (Parquet \<lparr>columns = [''raceId'', ''points'', ''year''],
                    dtypes = [Int64, Int64, Int64],
                    rows = [[Some 2, Some 8, Some 2011]]\<rparr>)"
    by (simp add: run_defs example_defs)
  from forced_bootstrap_overwrites[OF h1, of example_env] h2
  have "get_processed_years (state (snd ?r)) ''driver_standings'' =
      get_processed_years (state example_sys_2009) ''driver_standings'' \<union> set [Some 2011]"
    by blast
  then show ?thesis using o sv by (auto simp: get_processed_years_def example_defs)
qed

section \<open>The year of every row\<close>




section \<open>Running twice\<close>

text \<open>
  Claim C4. An incremental run constructs the processor, which loads the state file, and
  calls \<^verbatim>\<open>process_all_incremental\<close> without the initial load. When such a run is
  followed by another on the system it leaves, with whatever environment, the second run
  loads the state file and, for every fact table that the first run reported as a success
  (or as up to date), reports the table as up to date, leaves its silver file as it was
  and leaves its entry of the state file as it was. When the first run reported every
  fact table so, the second run changes neither the silver files nor the state file.
\<close>

theorem second_run_is_up_to_date:
  assumes "init_processor s0 = Inr sA"
    and "process_all_incremental env1 False sA = (outs1, s1)"
  shows "\<exists>sB outs2 s2 st1 st2.
    init_processor s1 = Inr sB \<and>
    process_all_incremental env2 False sB = (outs2, s2) \<and>
    load_state (state_file s1) = Inr st1 \<and> load_state (state_file s2) = Inr st2 \<and>
    (\<forall>i < length TABLES_WITH_YEAR. is_current (outs1 ! i) \<longrightarrow>
       outs2 ! i = UpToDate (TABLES_WITH_YEAR ! i) \<and>
       silver s2 (TABLES_WITH_YEAR ! i) = silver s1 (TABLES_WITH_YEAR ! i) \<and>
       st2 (TABLES_WITH_YEAR ! i) = st1 (TABLES_WITH_YEAR ! i)) \<and>
    ((\<forall>i < length TABLES_WITH_YEAR. is_current (outs1 ! i)) \<longrightarrow>
       silver s2 = silver s1 \<and> state_file s2 = state_file s1)"
proof -
  note iA = assms(1)
  have r1: "process_tables env1 False TABLES_WITH_YEAR sA = (outs1, s1)"
    using assms(2) by (simp add: process_all_incremental_def)
  have o1: "outs1 = fst (process_tables env1 False TABLES_WITH_YEAR sA)"
    and s1: "s1 = snd (process_tables env1 False TABLES_WITH_YEAR sA)"
    using r1 by simp_all
  have "in_sync sA" using in_sync_init[OF iA] by simp
  then have "in_sync s1" unfolding s1 by (rule process_tables_sync)
  then obtain st1 where
    l1: "load_state (state_file s1) = Inr st1" and
    p1: "\<And>t. get_processed_years st1 t = get_processed_years (state s1) t"
    by (auto simp: in_sync_def)
  define sB where "sB = s1\<lparr>state := st1\<rparr>"
  have iB: "init_processor s1 = Inr sB" using l1 by (simp add: init_processor_def sB_def)
  have syB: "in_sync sB" using in_sync_init[OF iB] by simp
  define outs2 where "outs2 = fst (process_tables env2 False TABLES_WITH_YEAR sB)"
  define s2 where "s2 = snd (process_tables env2 False TABLES_WITH_YEAR sB)"
  have m2: "process_all_incremental env2 False sB = (outs2, s2)"
    by (simp add: process_all_incremental_def outs2_def s2_def)
  have "in_sync s2" unfolding s2_def using syB by (rule process_tables_sync)
  then obtain st2 where l2: "load_state (state_file s2) = Inr st2"
    by (auto simp: in_sync_def)
  have q: "plan_table (bronze sB) (state sB) (TABLES_WITH_YEAR ! i) False =
      Return (UpToDate (TABLES_WITH_YEAR ! i)) []"
    if "i < length TABLES_WITH_YEAR" "is_current (outs1 ! i)" for i
  proof -
    have "plan_table (bronze s1) (state s1) (TABLES_WITH_YEAR ! i) False =
        Return (UpToDate (TABLES_WITH_YEAR ! i)) []"
      unfolding s1 using that unfolding o1 by (rule current_in_run)
    moreover have "plan_table (bronze sB) (state sB) (TABLES_WITH_YEAR ! i) False =
        plan_table (bronze s1) (state s1) (TABLES_WITH_YEAR ! i) False"
      using plan_table_processed[OF p1, of "bronze s1" "TABLES_WITH_YEAR ! i" False]
      by (simp add: sB_def)
    ultimately show ?thesis by simp
  qed
  have per_table: "outs2 ! i = UpToDate (TABLES_WITH_YEAR ! i) \<and>
       silver s2 (TABLES_WITH_YEAR ! i) = silver s1 (TABLES_WITH_YEAR ! i) \<and>
       st2 (TABLES_WITH_YEAR ! i) = st1 (TABLES_WITH_YEAR ! i)"
    if i: "i < length TABLES_WITH_YEAR" and c: "is_current (outs1 ! i)" for i
  proof -
    note u = up_to_date_run[OF q[OF i c], where env=env2 and ts=TABLES_WITH_YEAR]
    have "outs2 ! i = UpToDate (TABLES_WITH_YEAR ! i)"
      using u i by (simp add: outs2_def)
    moreover have "silver s2 (TABLES_WITH_YEAR ! i) = silver s1 (TABLES_WITH_YEAR ! i)"
      using u by (simp add: s2_def sB_def)
    moreover have "st2 (TABLES_WITH_YEAR ! i) = st1 (TABLES_WITH_YEAR ! i)"
    proof -
      have "load_state (state_file sB) = Inr st1" "st1 (TABLES_WITH_YEAR ! i) = state sB (TABLES_WITH_YEAR ! i)"
        using l1 by (simp_all add: sB_def)
      from file_entry_run[OF q[OF i c] this, where env=env2 and ts=TABLES_WITH_YEAR] l2
      show ?thesis by (auto simp: s2_def)
    qed
    ultimately show ?thesis by simp
  qed
  have whole: "silver s2 = silver s1 \<and> state_file s2 = state_file s1"
    if a: "\<forall>i < length TABLES_WITH_YEAR. is_current (outs1 ! i)"
  proof -
    have "\<forall>t \<in> set TABLES_WITH_YEAR.
        plan_table (bronze sB) (state sB) t False = Return (UpToDate t) []"
      using q a by (auto simp: in_set_conv_nth)
    from all_up_to_date_run[OF this, of env2] have "s2 = sB" by (simp add: s2_def)
    then show ?thesis by (simp add: sB_def)
  qed
  from iB m2 l1 l2 per_table whole show ?thesis by blast
qed

text \<open>
  The example system run twice: the driver standings, merged by the first run, are up to
  date in the second, and their silver file and state entry are those of the first run.
\<close>

theorem second_run_is_up_to_date_witness:
  "fst (process_all_incremental example_env False example_sys) ! 6 =
     Success ''driver_standings'' [Some 2009, Some 2011] 2 2 \<and>
   (\<exists>sB outs2 s2 st2.
     init_processor (snd (process_all_incremental example_env False example_sys)) = Inr sB \<and>
     process_all_incremental example_env False sB = (outs2, s2) \<and>
     outs2 ! 6 = UpToDate ''driver_standings'' \<and>
     silver s2 ''driver_standings'' = Some (Parquet example_standings_with_year) \<and>
     load_state (state_file s2) = Inr st2 \<and>
     st2 ''driver_standings'' =
       Some \<lparr>processed_years = [Some 2009, Some 2011],
             last_update = Some ''2024-03-01T12:00:00''\<rparr>)"
proof -
  let ?R = "process_all_incremental example_env False example_sys"
  have i: "init_processor example_sys = Inr example_sys"
    by (simp add: init_processor_def load_state_def example_sys_def)
  have run1: "process_all_incremental example_env False example_sys = (fst ?R, snd ?R)"
    by simp
  have o: "fst ?R ! 6 = Success ''driver_standings'' [Some 2009, Some 2011] 2 2"
    by (simp add: example_run)
  then have c: "is_current (fst ?R ! 6)" by simp
  have t: "TABLES_WITH_YEAR ! 6 = ''driver_standings''" "6 < length TABLES_WITH_YEAR"
    by (simp_all add: TABLES_WITH_YEAR_def)
  have "''driver_standings'' \<in> set TABLES_WITH_YEAR" by (simp add: TABLES_WITH_YEAR_def)
  from process_all_effect[OF this, of example_env False example_sys]
  have sv: "silver (snd ?R) ''driver_standings'' = Some (Parquet example_standings_with_year)"
    and st: "state (snd ?R) ''driver_standings'' =
       Some \<lparr>processed_years = [Some 2009, Some 2011],
             last_update = Some ''2024-03-01T12:00:00''\<rparr>"
    by (simp_all add: run_defs example_defs)
  from second_run_is_up_to_date[OF i run1, of example_env] obtain sB outs2 s2 st1 st2 where
    m: "init_processor (snd ?R) = Inr sB"
      "process_all_incremental example_env False sB = (outs2, s2)" and
    l: "load_state (state_file (snd ?R)) = Inr st1" "load_state (state_file s2) = Inr st2" and
    a: "\<forall>i < length TABLES_WITH_YEAR. is_current (fst ?R ! i) \<longrightarrow>
       outs2 ! i = UpToDate (TABLES_WITH_YEAR ! i) \<and>
       silver s2 (TABLES_WITH_YEAR ! i) = silver (snd ?R) (TABLES_WITH_YEAR ! i) \<and>
       st2 (TABLES_WITH_YEAR ! i) = st1 (TABLES_WITH_YEAR ! i)"
    by blast
  from a t c have r: "outs2 ! 6 = UpToDate ''driver_standings''"
    "silver s2 ''driver_standings'' = silver (snd ?R) ''driver_standings''"
    "st2 ''driver_standings'' = st1 ''driver_standings''"
    by auto
  have "state_file (snd ?R) = Complete (state (snd ?R))"
    by (simp add: process_all_incremental_def run_defs example_defs)
  with l(1) have "st1 ''driver_standings'' = state (snd ?R) ''driver_standings''"
    by (simp add: load_state_def)
  with m l r sv st o show ?thesis by auto
qed

end
